theory Spec2Isabelle
  imports Complex_Main "HOL-Library.Sublist"
begin

section \<open>Python values of the program\<close>

text \<open>
  A Python \<open>str\<close> is an Isabelle \<open>string\<close> holding its UTF-8 encoding, so the
  Turkish literals of the source are written with their bytes. Searching, splitting and
  trimming are the same on the bytes as on the code points.

  Exceptions are values. The source tells two handlers apart,
  \<open>except json.JSONDecodeError\<close> and \<open>except Exception\<close>, so an exception is either a
  \<open>JSONDecodeError\<close> or any other instance of \<open>Exception\<close>; each carries the text
  that \<open>str(e)\<close> gives. Exceptions outside \<open>Exception\<close> (interpreter exit, keyboard
  interrupt) are not modelled.
\<close>

datatype exn = JSONDecodeError string | Exception string

fun str_exn :: "exn \<Rightarrow> string" where
  "str_exn (JSONDecodeError m) = m"
| "str_exn (Exception m) = m"

text \<open>
  The values \<open>json.loads\<close> produces, which are also the values of the dictionaries the
  task router builds: \<open>None\<close>, booleans, numbers, strings, lists and dictionaries
  (an association list read with \<open>map_of\<close>).
\<close>

datatype json =
    JNull
  | JBool bool
  | JInt int
  | JFloat real
  | JStr string
  | JArr "json list"
  | JObj "(string \<times> json) list"

text \<open>Python truthiness, as used by \<open>if result:\<close> and \<open>if ai_res.get(...)\<close>.\<close>

fun truthy :: "json \<Rightarrow> bool" where
  "truthy JNull = False"
| "truthy (JBool b) = b"
| "truthy (JInt n) = (n \<noteq> 0)"
| "truthy (JFloat x) = (x \<noteq> 0)"
| "truthy (JStr s) = (s \<noteq> [])"
| "truthy (JArr xs) = (xs \<noteq> [])"
| "truthy (JObj kvs) = (kvs \<noteq> [])"

section \<open>String operations of the standard library used by the source\<close>

text \<open>\<open>s.find(sep)\<close>: the index of the leftmost occurrence of \<open>sep\<close> in \<open>s\<close>.\<close>

fun find_py :: "string \<Rightarrow> string \<Rightarrow> nat option" where
  "find_py sep [] = (if sep = [] then Some 0 else None)"
| "find_py sep (c # cs) =
     (if prefix sep (c # cs) then Some 0 else map_option Suc (find_py sep cs))"

text \<open>\<open>sep in s\<close>.\<close>

definition contains_py :: "string \<Rightarrow> string \<Rightarrow> bool" where
  "contains_py sep s = (find_py sep s \<noteq> None)"

text \<open>
  \<open>s.split(sep)\<close> for a non-empty separator: cut at the leftmost occurrence, then go on
  after it. (Python raises ValueError for an empty separator; the source only splits on
  literals, and the model returns the text whole there.)
\<close>

function split_py :: "string \<Rightarrow> string \<Rightarrow> string list" where
  "split_py sep s =
     (if sep = [] then [s]
      else case find_py sep s of
             None \<Rightarrow> [s]
           | Some i \<Rightarrow> take i s # split_py sep (drop (i + length sep) s))"
  by pat_completeness auto
termination
proof (relation "measure (\<lambda>(sep, s). length s)")
  show "wf (measure (\<lambda>(sep, s). length s))" by simp
next
  fix sep s :: string and i :: nat
  assume ne: "sep \<noteq> []" and f: "find_py sep s = Some i"
  have "s \<noteq> []"
  proof
    assume "s = []"
    with f ne show False by simp
  qed
  moreover from ne have "0 < i + length sep" by simp
  ultimately show "((sep, drop (i + length sep) s), (sep, s)) \<in> measure (\<lambda>(sep, s). length s)"
    by simp
qed

declare split_py.simps [simp del]

text \<open>
  \<open>xs[i]\<close> on a Python list: IndexError when out of range.
\<close>

definition index_py :: "'a list \<Rightarrow> nat \<Rightarrow> exn + 'a" where
  "index_py xs i =
     (if i < length xs then Inr (xs ! i) else Inl (Exception ''list index out of range''))"

text \<open>
  \<open>s.strip()\<close>: the characters for which \<open>str.isspace\<close> holds are removed from both
  ends. \<open>whitespace\<close> lists their UTF-8 encodings: the ten of the ASCII range, U+0085,
  U+00A0, U+1680, U+2000 to U+200A, U+2028, U+2029, U+202F, U+205F and U+3000.
  \<open>drop_ws\<close> removes encodings of the list from the front as long as one is there;
  the back is trimmed on the reversed text with the reversed encodings.
\<close>

definition whitespace :: "string list" where
  "whitespace =
     [[CHR 0x09], [CHR 0x0A], [CHR 0x0B], [CHR 0x0C], [CHR 0x0D],
      [CHR 0x1C], [CHR 0x1D], [CHR 0x1E], [CHR 0x1F], [CHR 0x20],
      [CHR 0xC2, CHR 0x85], [CHR 0xC2, CHR 0xA0], [CHR 0xE1, CHR 0x9A, CHR 0x80],
      [CHR 0xE2, CHR 0x80, CHR 0x80], [CHR 0xE2, CHR 0x80, CHR 0x81],
      [CHR 0xE2, CHR 0x80, CHR 0x82], [CHR 0xE2, CHR 0x80, CHR 0x83],
      [CHR 0xE2, CHR 0x80, CHR 0x84], [CHR 0xE2, CHR 0x80, CHR 0x85],
      [CHR 0xE2, CHR 0x80, CHR 0x86], [CHR 0xE2, CHR 0x80, CHR 0x87],
      [CHR 0xE2, CHR 0x80, CHR 0x88], [CHR 0xE2, CHR 0x80, CHR 0x89],
      [CHR 0xE2, CHR 0x80, CHR 0x8A], [CHR 0xE2, CHR 0x80, CHR 0xA8],
      [CHR 0xE2, CHR 0x80, CHR 0xA9], [CHR 0xE2, CHR 0x80, CHR 0xAF],
      [CHR 0xE2, CHR 0x81, CHR 0x9F], [CHR 0xE3, CHR 0x80, CHR 0x80]]"

function drop_ws :: "string list \<Rightarrow> string \<Rightarrow> string" where
  "drop_ws ws s =
     (case List.find (\<lambda>w. w \<noteq> [] \<and> prefix w s) ws of
        None \<Rightarrow> s
      | Some w \<Rightarrow> drop_ws ws (drop (length w) s))"
  by pat_completeness auto
termination
proof (relation "measure (\<lambda>(ws, s). length s)")
  show "wf (measure (\<lambda>(ws, s). length s))" by simp
next
  fix ws :: "string list" and s w :: string
  assume "List.find (\<lambda>w. w \<noteq> [] \<and> prefix w s) ws = Some w"
  then have "w \<noteq> []" "prefix w s" by (auto simp: find_Some_iff)
  then have "0 < length w" "length w \<le> length s" by (auto dest: prefix_length_le)
  then have "length (drop (length w) s) < length s" by (simp only: length_drop)
  then show "((ws, drop (length w) s), (ws, s)) \<in> measure (\<lambda>(ws, s). length s)" by simp
qed

declare drop_ws.simps [simp del]

definition strip_py :: "string \<Rightarrow> string" where
  "strip_py s = rev (drop_ws (map rev whitespace) (rev (drop_ws whitespace s)))"

section \<open>The response sanitizer (ai_engine.py, \<open>BaseAIEngine._clean_and_parse_json\<close>)\<close>

text \<open>
  \<open>json.loads\<close> belongs to the standard library and is a parameter of the model: a
  function from the text to the decoded value or to the exception raised.
\<close>

type_synonym loads_fn = "string \<Rightarrow> exn + json"

definition fence_json :: string where
  "fence_json = ''```json''"

definition fence :: string where
  "fence = ''```''"

text \<open>
  The inner \<open>try\<close> block: cut the interior of the fenced block out of the text, trim it,
  decode it. Every exception raised here is caught by \<open>except Exception\<close> in the caller
  below.
\<close>

definition fenced_interior :: "string \<Rightarrow> exn + string" where
  "fenced_interior text =
     (if contains_py fence_json text then
        (case index_py (split_py fence_json text) 1 of
           Inl e \<Rightarrow> Inl e
         | Inr t \<Rightarrow> index_py (split_py fence t) 0)
      else if contains_py fence text then
        (case index_py (split_py fence text) 1 of
           Inl e \<Rightarrow> Inl e
         | Inr t \<Rightarrow> index_py (split_py fence t) 0)
      else Inr text)"

definition clean_and_parse_json :: "loads_fn \<Rightarrow> string \<Rightarrow> exn + json option" where
  "clean_and_parse_json loads text =
     (case loads text of
        Inr v \<Rightarrow> Inr (Some v)
      | Inl (Exception m) \<Rightarrow> Inl (Exception m)
      | Inl (JSONDecodeError m) \<Rightarrow>
          (case fenced_interior text of
             Inl e \<Rightarrow> Inr None
           | Inr t \<Rightarrow>
               (case loads (strip_py t) of
                  Inl e \<Rightarrow> Inr None
                | Inr v \<Rightarrow> Inr (Some v))))"

text \<open>
  A table of values of \<open>json.loads\<close>, for the concrete runs below: it agrees with the
  library on every text those runs decode. A text of at least 100000 opening brackets
  makes the decoder exceed the recursion limit, and \<open>RecursionError\<close> is no
  \<open>JSONDecodeError\<close>; the other listed texts are valid JSON; the remaining texts the
  runs decode are not JSON.
\<close>

definition loads_sample :: loads_fn where
  \<open>loads_sample t =
     (if 100000 \<le> length t \<and> list_all (\<lambda>c. c = CHR ''['') t
        then Inl (Exception ''maximum recursion depth exceeded while decoding a JSON array from a unicode string'')
      else if t = ''{"a": 1}'' then Inr (JObj [(''a'', JInt 1)])
      else if t = ''{"a": "```"}'' then Inr (JObj [(''a'', JStr ''```'')])
      else if t = ''{"status": "error"}'' then Inr (JObj [(''status'', JStr ''error'')])
      else if t = ''{"target_name": "Ali"}'' then Inr (JObj [(''target_name'', JStr ''Ali'')])
      else if t = ''{"target_name": "Ali", "found_email": "x@y.z"}''
        then Inr (JObj [(''target_name'', JStr ''Ali''), (''found_email'', JStr ''x@y.z'')])
      else Inl (JSONDecodeError ''Expecting value''))\<close>



section \<open>Dates and times of the standard library\<close>

text \<open>
  A \<open>datetime\<close> has the fields of the Python class; \<open>offset\<close> is the UTC offset as
  \<open>isoformat\<close> prints it, empty for a naive value. Adding a \<open>timedelta\<close> of whole days
  or of one hour steps the Gregorian calendar; the library raises OverflowError past
  the year 9999.
\<close>

record datetime =
  year :: nat
  month :: nat
  day :: nat
  hour :: nat
  minute :: nat
  second :: nat
  microsecond :: nat
  offset :: string

definition is_leap :: "nat \<Rightarrow> bool" where
  "is_leap y = (y mod 4 = 0 \<and> (y mod 100 \<noteq> 0 \<or> y mod 400 = 0))"

definition days_in_month :: "nat \<Rightarrow> nat \<Rightarrow> nat" where
  "days_in_month y m =
     (if m = 2 then (if is_leap y then 29 else 28)
      else if m = 4 \<or> m = 6 \<or> m = 9 \<or> m = 11 then 30 else 31)"

definition valid_datetime :: "datetime \<Rightarrow> bool" where
  "valid_datetime d =
     (1 \<le> year d \<and> year d \<le> 9999 \<and> 1 \<le> month d \<and> month d \<le> 12
      \<and> 1 \<le> day d \<and> day d \<le> days_in_month (year d) (month d)
      \<and> hour d < 24 \<and> minute d < 60 \<and> second d < 60 \<and> microsecond d < 1000000)"

definition next_day :: "datetime \<Rightarrow> exn + datetime" where
  "next_day d =
     (if day d < days_in_month (year d) (month d) then Inr (d\<lparr>day := day d + 1\<rparr>)
      else if month d < 12 then Inr (d\<lparr>month := month d + 1, day := 1\<rparr>)
      else if year d < 9999 then Inr (d\<lparr>year := year d + 1, month := 1, day := 1\<rparr>)
      else Inl (Exception ''date value out of range''))"

text \<open>\<open>d + timedelta(days=n)\<close> and \<open>d + timedelta(hours=1)\<close>.\<close>

fun add_days :: "nat \<Rightarrow> datetime \<Rightarrow> exn + datetime" where
  "add_days 0 d = Inr d"
| "add_days (Suc n) d = (case next_day d of Inl e \<Rightarrow> Inl e | Inr d' \<Rightarrow> add_days n d')"

definition add_hour :: "datetime \<Rightarrow> exn + datetime" where
  "add_hour d =
     (if hour d < 23 then Inr (d\<lparr>hour := hour d + 1\<rparr>)
      else case next_day d of Inl e \<Rightarrow> Inl e | Inr d' \<Rightarrow> Inr (d'\<lparr>hour := 0\<rparr>))"

text \<open>\<open>date.toordinal()\<close> (day 1 is 0001-01-01) and \<open>date.weekday()\<close> (Monday is 0).\<close>

definition days_before_year :: "nat \<Rightarrow> nat" where
  "days_before_year y = (y - 1) * 365 + (y - 1) div 4 - (y - 1) div 100 + (y - 1) div 400"

definition days_before_month :: "nat \<Rightarrow> nat \<Rightarrow> nat" where
  "days_before_month y m = sum_list (map (days_in_month y) [1..<m])"

definition toordinal :: "datetime \<Rightarrow> nat" where
  "toordinal d = days_before_year (year d) + days_before_month (year d) (month d) + day d"

definition weekday :: "datetime \<Rightarrow> nat" where
  "weekday d = (toordinal d + 6) mod 7"

text \<open>The seconds of a value since the start of day 0, for durations.\<close>

definition seconds_of :: "datetime \<Rightarrow> nat" where
  "seconds_of d = ((toordinal d * 24 + hour d) * 60 + minute d) * 60 + second d"

text \<open>Decimal digits: \<open>str(n)\<close> and the zero-padded fields of \<open>strftime\<close> and \<open>isoformat\<close>.\<close>

definition digit :: "nat \<Rightarrow> char" where
  "digit n = ''0123456789'' ! (n mod 10)"

definition pad2 :: "nat \<Rightarrow> string" where
  "pad2 n = [digit (n div 10), digit n]"

definition pad4 :: "nat \<Rightarrow> string" where
  "pad4 n = [digit (n div 1000), digit (n div 100), digit (n div 10), digit n]"

definition pad6 :: "nat \<Rightarrow> string" where
  "pad6 n = [digit (n div 100000), digit (n div 10000), digit (n div 1000),
             digit (n div 100), digit (n div 10), digit n]"

function str_nat :: "nat \<Rightarrow> string" where
  "str_nat n = (if n < 10 then [digit n] else str_nat (n div 10) @ [digit n])"
  by pat_completeness auto
termination
  by (relation "measure (\<lambda>n. n)") auto

declare str_nat.simps [simp del]

text \<open>\<open>strftime('%Y-%m-%d')\<close>, \<open>strftime('%H:%M')\<close> and \<open>isoformat()\<close>.\<close>

definition date_str :: "datetime \<Rightarrow> string" where
  "date_str d = pad4 (year d) @ ''-'' @ pad2 (month d) @ ''-'' @ pad2 (day d)"

definition time_str :: "datetime \<Rightarrow> string" where
  "time_str d = pad2 (hour d) @ '':'' @ pad2 (minute d)"

definition isoformat :: "datetime \<Rightarrow> string" where
  "isoformat d =
     date_str d @ ''T'' @ pad2 (hour d) @ '':'' @ pad2 (minute d) @ '':'' @ pad2 (second d)
       @ (if microsecond d = 0 then [] else ''.'' @ pad6 (microsecond d)) @ offset d"

section \<open>The temporal grounding provider (ai_engine.py, \<open>BaseAIEngine._get_time_context\<close>)\<close>

text \<open>
  The system clock is state: an unbounded sequence of samples and the number of reads so
  far; \<open>datetime.now()\<close> returns the current sample and moves on. \<open>strftime('%A')\<close> is
  the weekday name of the process locale, a parameter \<open>dn\<close> from the weekday number to
  the name.
\<close>

record clock =
  samples :: "nat \<Rightarrow> datetime"
  reads :: nat

definition clock_now :: "clock \<Rightarrow> datetime \<times> clock" where
  "clock_now c = (samples c (reads c), c\<lparr>reads := Suc (reads c)\<rparr>)"

text \<open>The text of the f-string, given the three values \<open>now\<close>, \<open>tomorrow\<close>, \<open>next_week\<close>.\<close>

definition time_block :: "(nat \<Rightarrow> string) \<Rightarrow> datetime \<Rightarrow> datetime \<Rightarrow> datetime \<Rightarrow> string" where
  "time_block dn now tomorrow next_week =
     [CHR 0x0A] @ ''        REFERANS ZAMAN B'' @ [CHR 0xC4, CHR 0xB0] @ ''LG''
       @ [CHR 0xC4, CHR 0xB0] @ ''LER'' @ [CHR 0xC4, CHR 0xB0] @ '' (Buna Kesinlikle Uy):''
     @ [CHR 0x0A] @ ''        - BUG'' @ [CHR 0xC3, CHR 0x9C] @ ''N'' @ [CHR 0xC3, CHR 0x9C]
       @ ''N TAR'' @ [CHR 0xC4, CHR 0xB0] @ ''H'' @ [CHR 0xC4, CHR 0xB0] @ '': ''
       @ date_str now @ '' ('' @ dn (weekday now) @ '')''
     @ [CHR 0x0A] @ ''        - '' @ [CHR 0xC5, CHR 0x9E] @ ''U ANK'' @ [CHR 0xC4, CHR 0xB0]
       @ '' SAAT: '' @ time_str now
     @ [CHR 0x0A] @ ''        - YARININ TAR'' @ [CHR 0xC4, CHR 0xB0] @ ''H''
       @ [CHR 0xC4, CHR 0xB0] @ '': '' @ date_str tomorrow @ '' ('' @ dn (weekday tomorrow) @ '')''
     @ [CHR 0x0A] @ ''        - HAFTAYA BUG'' @ [CHR 0xC3, CHR 0x9C] @ ''N: '' @ date_str next_week
     @ [CHR 0x0A] @ ''        - BULUNDU'' @ [CHR 0xC4, CHR 0x9E] @ ''UMUZ YIL: '' @ str_nat (year now)
     @ [CHR 0x0A] @ ''        ''"

definition get_time_context :: "(nat \<Rightarrow> string) \<Rightarrow> clock \<Rightarrow> (exn + string) \<times> clock" where
  "get_time_context dn c =
     (case clock_now c of
        (now, c') \<Rightarrow>
          (case add_days 1 now of
             Inl e \<Rightarrow> (Inl e, c')
           | Inr tomorrow \<Rightarrow>
               (case add_days 7 now of
                  Inl e \<Rightarrow> (Inl e, c')
                | Inr next_week \<Rightarrow> (Inr (time_block dn now tomorrow next_week), c'))))"

text \<open>
  For the concrete runs below: the weekday names of the C locale, a clock that shows
  Sunday 2026-01-04 09:00, and a clock that shows the last day of the year 9999.
\<close>

definition day_names_en :: "nat \<Rightarrow> string" where
  "day_names_en n =
     [''Monday'', ''Tuesday'', ''Wednesday'', ''Thursday'', ''Friday'', ''Saturday'', ''Sunday''] ! n"

definition sunday_morning :: datetime where
  "sunday_morning =
     \<lparr>year = 2026, month = 1, day = 4, hour = 9, minute = 0, second = 0, microsecond = 0,
      offset = []\<rparr>"

definition clock_sample :: clock where
  "clock_sample = \<lparr>samples = (\<lambda>n. sunday_morning), reads = 0\<rparr>"



section \<open>The intent engine (ai_engine.py, \<open>OllamaClient\<close>)\<close>

text \<open>
  Each operation first calls \<open>self._get_time_context()\<close>, outside its \<open>try\<close> block:
  the clock is read, and an exception of that call leaves the operation. Then it builds
  the prompt and calls the backend once. The prompt text is not modelled: the outcome of
  that one call, \<open>ollama.chat(...)['message']['content']\<close>, is an input of the model,
  either the exception raised or the text returned. The body of each \<open>try\<close> block is
  a function of its own, and the operation applies the handler to it.
\<close>

definition bos_yanit :: string where
  "bos_yanit = ''Bo'' @ [CHR 0xC5, CHR 0x9F] @ '' Yan'' @ [CHR 0xC4, CHR 0xB1] @ ''t''"

definition summary_fallback :: "exn \<Rightarrow> json" where
  "summary_fallback e =
     JObj [(''summary'', JStr ''Hata''),
           (''draft_reply'', JStr (''Hata: '' @ str_exn e)),
           (''detected_date'', JNull),
           (''meeting_title'', JStr ''Hata'')]"

definition summary_try :: "loads_fn \<Rightarrow> exn + string \<Rightarrow> exn + json" where
  "summary_try loads reply =
     (case reply of
        Inl e \<Rightarrow> Inl e
      | Inr content \<Rightarrow>
          (case clean_and_parse_json loads content of
             Inl e \<Rightarrow> Inl e
           | Inr None \<Rightarrow> Inl (Exception bos_yanit)
           | Inr (Some result) \<Rightarrow>
               if truthy result then Inr result else Inl (Exception bos_yanit)))"

definition generate_summary_and_reply ::
  "(nat \<Rightarrow> string) \<Rightarrow> loads_fn \<Rightarrow> exn + string \<Rightarrow> clock \<Rightarrow> (exn + json) \<times> clock" where
  "generate_summary_and_reply dn loads reply c =
     (case get_time_context dn c of
        (Inl e, c') \<Rightarrow> (Inl e, c')
      | (Inr time_context, c') \<Rightarrow>
          (case summary_try loads reply of
             Inr result \<Rightarrow> (Inr result, c')
           | Inl e \<Rightarrow> (Inr (summary_fallback e), c')))"

definition action_unparsed :: json where
  "action_unparsed =
     JObj [(''target_name'', JNull),
           (''draft_text'', JStr (''AI yan'' @ [CHR 0xC4, CHR 0xB1] @ ''t'' @ [CHR 0xC4, CHR 0xB1]
              @ '' anla'' @ [CHR 0xC5, CHR 0x9F, CHR 0xC4, CHR 0xB1] @ ''lamad''
              @ [CHR 0xC4, CHR 0xB1] @ ''.'')),
           (''extracted_date'', JNull),
           (''meeting_title'', JStr ''Hata'')]"

definition action_error :: json where
  "action_error =
     JObj [(''target_name'', JNull),
           (''draft_text'', JStr (''Sistem hatas'' @ [CHR 0xC4, CHR 0xB1] @ ''.'')),
           (''extracted_date'', JNull),
           (''meeting_title'', JStr ''Hata'')]"

definition action_try :: "loads_fn \<Rightarrow> exn + string \<Rightarrow> exn + json" where
  "action_try loads reply =
     (case reply of
        Inl e \<Rightarrow> Inl e
      | Inr content \<Rightarrow>
          (case clean_and_parse_json loads content of
             Inl e \<Rightarrow> Inl e
           | Inr None \<Rightarrow> Inr action_unparsed
           | Inr (Some result) \<Rightarrow>
               if \<not> truthy result then Inr action_unparsed else Inr result))"

definition decide_action ::
  "(nat \<Rightarrow> string) \<Rightarrow> loads_fn \<Rightarrow> exn + string \<Rightarrow> clock \<Rightarrow> (exn + json) \<times> clock" where
  "decide_action dn loads reply c =
     (case get_time_context dn c of
        (Inl e, c') \<Rightarrow> (Inl e, c')
      | (Inr time_context, c') \<Rightarrow>
          (case action_try loads reply of
             Inr result \<Rightarrow> (Inr result, c')
           | Inl e \<Rightarrow> (Inr action_error, c')))"

section \<open>The task router (gui_app.py, \<open>Worker\<close>)\<close>

text \<open>
  The gateway session is the environment of one task: opening it may raise, each tool
  call returns the content list of its response or raises, closing may raise. A
  dictionary built by the router is a map from keys to values; \<open>**ai_res\<close> after the
  router's own keys is \<open>++\<close>, whose right operand wins. The router also returns the
  list of tool calls it made.
\<close>

datatype content = TextContent string | OtherContent string

type_synonym pydict = "string \<rightharpoonup> json"

type_synonym tool_call = "string \<times> (string \<times> json) list"

type_synonym tool_fn = "string \<Rightarrow> (string \<times> json) list \<Rightarrow> exn + content list"

record gateway =
  open_exn :: "exn option"
  call_tool :: tool_fn
  close_exn :: "exn option"

record ai_env =
  weekday_names :: "nat \<Rightarrow> string"
  system_clock :: clock
  json_loads :: loads_fn
  chat_reply :: "exn + string"

text \<open>
  The two calls the router makes on its engine, \<open>self.ai.generate_summary_and_reply(...)\<close>
  and \<open>self.ai.decide_action(...)\<close>, in the environment of the task.
\<close>

definition ai_summary :: "ai_env \<Rightarrow> exn + json" where
  "ai_summary ai =
     fst (generate_summary_and_reply (weekday_names ai) (json_loads ai) (chat_reply ai)
            (system_clock ai))"

definition ai_action :: "ai_env \<Rightarrow> exn + json" where
  "ai_action ai =
     fst (decide_action (weekday_names ai) (json_loads ai) (chat_reply ai) (system_clock ai))"

text \<open>\<open>res.content[0].text\<close>.\<close>

fun first_text :: "content list \<Rightarrow> exn + string" where
  "first_text [] = Inl (Exception ''list index out of range'')"
| "first_text (TextContent t # cs) = Inr t"
| "first_text (OtherContent cls # cs) =
     Inl (Exception ([CHR 0x27] @ cls @ [CHR 0x27] @ '' object has no attribute ''
            @ [CHR 0x27] @ ''text'' @ [CHR 0x27]))"

fun type_name :: "json \<Rightarrow> string" where
  "type_name JNull = ''NoneType''"
| "type_name (JBool b) = ''bool''"
| "type_name (JInt n) = ''int''"
| "type_name (JFloat x) = ''float''"
| "type_name (JStr s) = ''str''"
| "type_name (JArr xs) = ''list''"
| "type_name (JObj kvs) = ''dict''"

text \<open>The exceptions of \<open>**ai_res\<close> and of \<open>ai_res.get\<close> on a value that is no dictionary.\<close>

definition not_a_mapping :: "json \<Rightarrow> exn" where
  "not_a_mapping v =
     Exception ([CHR 0x27] @ type_name v @ [CHR 0x27] @ '' object is not a mapping'')"

definition no_attribute_get :: "json \<Rightarrow> exn" where
  "no_attribute_get v =
     Exception ([CHR 0x27] @ type_name v @ [CHR 0x27] @ '' object has no attribute ''
        @ [CHR 0x27] @ ''get'' @ [CHR 0x27])"

definition opt_str :: "string option \<Rightarrow> json" where
  "opt_str x = (case x of None \<Rightarrow> JNull | Some s \<Rightarrow> JStr s)"

text \<open>\<open>d.get(k)\<close>: \<open>None\<close> for a missing key.\<close>

definition dict_get :: "(string \<times> json) list \<Rightarrow> string \<Rightarrow> json" where
  "dict_get kvs k = (case map_of kvs k of None \<Rightarrow> JNull | Some v \<Rightarrow> v)"

text \<open>
  The branches of \<open>_run_async\<close> inside the session. The regular expression search for
  the sender address is a parameter \<open>search\<close>: the matched address, or nothing.
\<close>

definition task_body ::
  "ai_env \<Rightarrow> (string \<Rightarrow> string option) \<Rightarrow> tool_fn \<Rightarrow> string \<Rightarrow> (string \<times> json) list
     \<Rightarrow> tool_call list \<times> (exn + pydict option)" where
  "task_body ai search call task payload =
     (if task = ''analyze_last_mail'' then
        ([(''get_latest_email'', [])],
         case call ''get_latest_email'' [] of
           Inl e \<Rightarrow> Inl e
         | Inr cs \<Rightarrow>
             (case first_text cs of
                Inl e \<Rightarrow> Inl e
              | Inr raw_mail \<Rightarrow>
                  (case ai_summary ai of
                     Inl e \<Rightarrow> Inl e
                   | Inr (JObj kvs) \<Rightarrow>
                       Inr (Some ([''status'' \<mapsto> JStr ''success'',
                                   ''raw_mail'' \<mapsto> JStr raw_mail,
                                   ''sender'' \<mapsto> opt_str (search raw_mail)] ++ map_of kvs))
                   | Inr ai_res \<Rightarrow> Inl (not_a_mapping ai_res))))
      else if task = ''process_command'' then
        (case ai_action ai of
           Inl e \<Rightarrow> ([], Inl e)
         | Inr (JObj kvs) \<Rightarrow>
             if truthy (dict_get kvs ''target_name'') then
               ([(''find_email_by_name'', [(''name'', dict_get kvs ''target_name'')])],
                case call ''find_email_by_name'' [(''name'', dict_get kvs ''target_name'')] of
                  Inl e \<Rightarrow> Inl e
                | Inr cs \<Rightarrow>
                    (case first_text cs of
                       Inl e \<Rightarrow> Inl e
                     | Inr text \<Rightarrow>
                         Inr (Some ([''status'' \<mapsto> JStr ''command_processed'',
                                     ''found_email'' \<mapsto>
                                        (if contains_py ''@'' text then JStr text else JNull)]
                                    ++ map_of kvs))))
             else
               ([], Inr (Some ([''status'' \<mapsto> JStr ''command_processed'',
                                ''found_email'' \<mapsto> JNull] ++ map_of kvs)))
         | Inr ai_res \<Rightarrow> ([], Inl (no_attribute_get ai_res)))
      else if task = ''send_reply'' then
        ([(''send_email_action'', payload)],
         case call ''send_email_action'' payload of
           Inl e \<Rightarrow> Inl e
         | Inr cs \<Rightarrow> Inr (Some [''status'' \<mapsto> JStr ''sent'']))
      else if task = ''add_calendar'' then
        ([(''schedule_meeting'', payload)],
         case call ''schedule_meeting'' payload of
           Inl e \<Rightarrow> Inl e
         | Inr cs \<Rightarrow>
             (case first_text cs of
                Inl e \<Rightarrow> Inl e
              | Inr text \<Rightarrow>
                  Inr (Some [''status'' \<mapsto> JStr ''calendar_added'', ''msg'' \<mapsto> JStr text])))
      else ([], Inr None))"

text \<open>
  \<open>_run_async\<close>: the session is opened, the task's branch runs, the session is closed.
  An exception of the opening is raised before any tool call; one of the closing replaces
  the outcome of the branch.
\<close>

definition run_async ::
  "gateway \<Rightarrow> ai_env \<Rightarrow> (string \<Rightarrow> string option) \<Rightarrow> string \<Rightarrow> (string \<times> json) list
     \<Rightarrow> tool_call list \<times> (exn + pydict option)" where
  "run_async gw ai search task payload =
     (case open_exn gw of
        Some e \<Rightarrow> ([], Inl e)
      | None \<Rightarrow>
          (case task_body ai search (call_tool gw) task payload of
             (calls, r) \<Rightarrow>
               (calls, case close_exn gw of Some e \<Rightarrow> Inl e | None \<Rightarrow> r)))"

definition error_result :: "exn \<Rightarrow> pydict" where
  "error_result e = [''status'' \<mapsto> JStr ''error'', ''msg'' \<mapsto> JStr (str_exn e)]"

text \<open>
  \<open>Worker.run\<close>: the list of the dictionaries emitted through the \<open>finished\<close> signal.
  A task name outside the four makes \<open>_run_async\<close> return \<open>None\<close>; emitting \<open>None\<close>
  through a signal declared for \<open>dict\<close> raises TypeError inside the \<open>try\<close>, and the
  handler emits the error dictionary.
\<close>

definition emit_none :: exn where
  "emit_none = Exception (''Worker.finished[dict].emit(): argument 1 has unexpected type ''
                 @ [CHR 0x27] @ ''NoneType'' @ [CHR 0x27])"

definition run ::
  "gateway \<Rightarrow> ai_env \<Rightarrow> (string \<Rightarrow> string option) \<Rightarrow> string \<Rightarrow> (string \<times> json) list
     \<Rightarrow> pydict list" where
  "run gw ai search task payload =
     (case snd (run_async gw ai search task payload) of
        Inr (Some res) \<Rightarrow> [res]
      | Inr None \<Rightarrow> [error_result emit_none]
      | Inl e \<Rightarrow> [error_result e])"

text \<open>
  Environments for the concrete runs below: a gateway whose every tool call answers with
  one text, a gateway whose every tool call raises, an engine on the sample clock whose
  backend returns a given text, and a sender search that finds nothing.
\<close>

definition gw_answering :: "string \<Rightarrow> gateway" where
  "gw_answering text =
     \<lparr>open_exn = None, call_tool = (\<lambda>name args. Inr [TextContent text]), close_exn = None\<rparr>"

definition gw_raising :: "exn \<Rightarrow> gateway" where
  "gw_raising e = \<lparr>open_exn = None, call_tool = (\<lambda>name args. Inl e), close_exn = None\<rparr>"

definition ai_returning :: "string \<Rightarrow> ai_env" where
  "ai_returning content =
     \<lparr>weekday_names = day_names_en, system_clock = clock_sample,
      json_loads = loads_sample, chat_reply = Inr content\<rparr>"

definition no_sender :: "string \<Rightarrow> string option" where
  "no_sender raw_mail = None"

section \<open>The contact resolver (server.py, \<open>ContactManager\<close>)\<close>

text \<open>
  The Drive and Sheets services are the environment: each request returns its value or
  raises. The only state of the manager is the cached sheet id. \<open>str.lower\<close> and
  \<open>difflib.SequenceMatcher(None, a, b).ratio()\<close> are library functions and parameters
  \<open>lo\<close> and \<open>ra\<close> of the model. A cell of the fetched table is a string or,
  with its type name, a value of another type, on which \<open>.lower()\<close> and \<open>.strip()\<close>
  raise AttributeError.
\<close>

datatype cell = CStr string | COther string

record contact_env =
  drive_list :: "exn + (string \<times> string) list"
  drive_create :: "exn + string option"
  sheets_update :: "string option \<Rightarrow> exn option"
  sheets_get :: "string \<Rightarrow> exn + cell list list"

definition no_attribute :: "string \<Rightarrow> string \<Rightarrow> exn" where
  "no_attribute ty attr =
     Exception ([CHR 0x27] @ ty @ [CHR 0x27] @ '' object has no attribute ''
        @ [CHR 0x27] @ attr @ [CHR 0x27])"

fun cell_lower :: "(string \<Rightarrow> string) \<Rightarrow> cell \<Rightarrow> exn + string" where
  "cell_lower lo (CStr s) = Inr (lo s)"
| "cell_lower lo (COther ty) = Inl (no_attribute ty ''lower'')"

fun cell_strip :: "cell \<Rightarrow> exn + string" where
  "cell_strip (CStr s) = Inr (strip_py s)"
| "cell_strip (COther ty) = Inl (no_attribute ty ''strip'')"

definition erisilemedi :: string where
  "erisilemedi = ''HATA: Rehber eri'' @ [CHR 0xC5, CHR 0x9F] @ ''ilemedi.''"

definition rehber_bos :: string where
  "rehber_bos = ''Rehber bo'' @ [CHR 0xC5, CHR 0x9F] @ ''.''"

definition bulunamadi :: string where
  "bulunamadi = ''BULUNAMADI''"

text \<open>
  \<open>_create_sheet\<close> and \<open>_get_sheet_id\<close>: the result and the new cache. Both catch
  every exception of their requests. A file of the listing is its id and its name.
\<close>

definition create_sheet :: "contact_env \<Rightarrow> string option \<Rightarrow> string option \<times> string option" where
  "create_sheet env cached =
     (case drive_create env of
        Inl e \<Rightarrow> (None, cached)
      | Inr new_id \<Rightarrow>
          (case sheets_update env new_id of
             Some e \<Rightarrow> (None, cached)
           | None \<Rightarrow> (new_id, new_id)))"

definition get_sheet_id :: "contact_env \<Rightarrow> string option \<Rightarrow> string option \<times> string option" where
  "get_sheet_id env cached =
     (if cached \<noteq> None \<and> cached \<noteq> Some [] then (cached, cached)
      else case drive_list env of
             Inr (f # fs) \<Rightarrow> (Some (fst f), Some (fst f))
           | Inr [] \<Rightarrow> create_sheet env cached
           | Inl e \<Rightarrow> create_sheet env cached)"

text \<open>
  The loop of \<open>find_email\<close> over \<open>rows[1:]\<close>, with its two variables \<open>best_match\<close> and
  \<open>highest_score\<close>, and the \<open>return\<close> after it.
\<close>

fun scan_rows ::
  "(string \<Rightarrow> string) \<Rightarrow> (string \<Rightarrow> string \<Rightarrow> real) \<Rightarrow> string \<Rightarrow> cell list list
     \<Rightarrow> string option \<Rightarrow> real \<Rightarrow> exn + string" where
  "scan_rows lo ra target [] best_match highest_score =
     Inr (case best_match of
            None \<Rightarrow> bulunamadi
          | Some e \<Rightarrow> if e = [] then bulunamadi else e)"
| "scan_rows lo ra target (row # rows) best_match highest_score =
     (if length row < 2 then scan_rows lo ra target rows best_match highest_score
      else case cell_lower lo (row ! 0) of
             Inl e \<Rightarrow> Inl e
           | Inr lowered \<Rightarrow>
               (case cell_strip (row ! 1) of
                  Inl e \<Rightarrow> Inl e
                | Inr contact_email \<Rightarrow>
                    if contains_py target (strip_py lowered) then Inr contact_email
                    else if 6 / 10 < ra target (strip_py lowered)
                            \<and> highest_score < ra target (strip_py lowered)
                    then scan_rows lo ra target rows (Some contact_email)
                           (ra target (strip_py lowered))
                    else scan_rows lo ra target rows best_match highest_score))"

definition find_email_try ::
  "(string \<Rightarrow> string) \<Rightarrow> (string \<Rightarrow> string \<Rightarrow> real) \<Rightarrow> contact_env \<Rightarrow> string \<Rightarrow> string
     \<Rightarrow> exn + string" where
  "find_email_try lo ra env sheet_id name =
     (case sheets_get env sheet_id of
        Inl e \<Rightarrow> Inl e
      | Inr rows \<Rightarrow>
          if length rows < 2 then Inr rehber_bos
          else scan_rows lo ra (strip_py (lo name)) (tl rows) None 0)"

definition find_email ::
  "(string \<Rightarrow> string) \<Rightarrow> (string \<Rightarrow> string \<Rightarrow> real) \<Rightarrow> contact_env \<Rightarrow> string option \<Rightarrow> string
     \<Rightarrow> (exn + string) \<times> string option" where
  "find_email lo ra env cached name =
     (case get_sheet_id env cached of
        (sheet_id, cached') \<Rightarrow>
          (case sheet_id of
             None \<Rightarrow> (Inr erisilemedi, cached')
           | Some sid \<Rightarrow>
               if sid = [] then (Inr erisilemedi, cached')
               else (case find_email_try lo ra env sid name of
                       Inr r \<Rightarrow> Inr r
                     | Inl e \<Rightarrow> Inr (''HATA: '' @ str_exn e), cached')))"

text \<open>
  Modelled from the spec: the reference algorithm of the contact resolver, in two
  passes over the contact records (display name, email). Names and query are lowercased
  and trimmed. First pass: the first record whose name contains the query gives its
  email. Second pass, only when no record contains it: the maximum of the similarity
  ratios is tracked, it is accepted only above 0.6, and the first record that reaches it
  gives its email. A table without records gives the "empty" sentinel, no acceptable
  match the "not found" sentinel.
\<close>

definition norm_name :: "(string \<Rightarrow> string) \<Rightarrow> string \<Rightarrow> string" where
  "norm_name lo s = strip_py (lo s)"

definition two_pass_find ::
  "(string \<Rightarrow> string) \<Rightarrow> (string \<Rightarrow> string \<Rightarrow> real) \<Rightarrow> (string \<times> string) list \<Rightarrow> string
     \<Rightarrow> string" where
  "two_pass_find lo ra recs query =
     (if recs = [] then rehber_bos
      else case List.find (\<lambda>r. contains_py (norm_name lo query) (norm_name lo (fst r))) recs of
             Some r \<Rightarrow> snd r
           | None \<Rightarrow>
               (let m = Max (set (map (\<lambda>r. ra (norm_name lo query) (norm_name lo (fst r))) recs))
                in if 6 / 10 < m
                   then (case List.find
                                (\<lambda>r. ra (norm_name lo query) (norm_name lo (fst r)) = m) recs of
                           Some r \<Rightarrow> snd r
                         | None \<Rightarrow> bulunamadi)
                   else bulunamadi))"

text \<open>The fetched table of a list of records under a header row.\<close>

definition table_of :: "cell list \<Rightarrow> (string \<times> string) list \<Rightarrow> cell list list" where
  "table_of header recs = header # map (\<lambda>r. [CStr (fst r), CStr (snd r)]) recs"

text \<open>\<open>str.lower\<close> on the ASCII letters, for the concrete runs below.\<close>

definition lower_ascii :: "string \<Rightarrow> string" where
  "lower_ascii s =
     map (\<lambda>c. case map_of (zip ''ABCDEFGHIJKLMNOPQRSTUVWXYZ'' ''abcdefghijklmnopqrstuvwxyz'') c of
                None \<Rightarrow> c
              | Some d \<Rightarrow> d) s"

text \<open>The value returned after the loop, from \<open>best_match\<close>.\<close>

definition after_loop :: "string option \<Rightarrow> string" where
  "after_loop b = (case b of None \<Rightarrow> bulunamadi | Some e \<Rightarrow> if e = [] then bulunamadi else e)"

text \<open>
  For the concrete runs below: one value of the similarity ratio (the library gives
  16/17 for "ali velli" against "ali veli": matching blocks of 7 and 1 characters, 17
  characters in all; pairs the runs do not score are left at 0), an environment whose
  Drive listing finds the sheet and whose Sheets request returns a given table, one
  whose Sheets request raises, and one where the sheet is neither found nor created.
\<close>

definition ratio_sample :: "string \<Rightarrow> string \<Rightarrow> real" where
  "ratio_sample a b = (if a = ''ali velli'' \<and> b = ''ali veli'' then 16 / 17 else 0)"

definition env_with_table :: "cell list list \<Rightarrow> contact_env" where
  "env_with_table rows =
     \<lparr>drive_list = Inr [(''sheet-1'', ''Specter_Contact_List'')],
      drive_create = Inl (Exception ''not called''),
      sheets_update = (\<lambda>sid. None),
      sheets_get = (\<lambda>sid. Inr rows)\<rparr>"

definition env_read_fails :: "exn \<Rightarrow> contact_env" where
  "env_read_fails e =
     \<lparr>drive_list = Inr [(''sheet-1'', ''Specter_Contact_List'')],
      drive_create = Inl (Exception ''not called''),
      sheets_update = (\<lambda>sid. None),
      sheets_get = (\<lambda>sid. Inl e)\<rparr>"

definition env_unreachable :: contact_env where
  "env_unreachable =
     \<lparr>drive_list = Inl (Exception ''HttpError 403''),
      drive_create = Inl (Exception ''HttpError 403''),
      sheets_update = (\<lambda>sid. None),
      sheets_get = (\<lambda>sid. Inl (Exception ''not called''))\<rparr>"

definition header_row :: "cell list" where
  "header_row = [CStr ''Name'', CStr ''Email'']"

definition ten_contacts :: "(string \<times> string) list" where
  "ten_contacts =
     [(''Ahmet Kaya'', ''ahmet@x.com''), (''Zeynep Demir'', ''zeynep@x.com''),
      (''Engin Vardar'', ''engin@x.com''), (''Burak Aslan'', ''burak@x.com''),
      (''Selin Kurt'', ''selin@x.com''), (''Murat Polat'', ''murat@x.com''),
      (''Deniz Aksoy'', ''deniz@x.com''), (''Hakan Bulut'', ''hakan@x.com''),
      (''Fatma Yavuz'', ''fatma@x.com''), (''Cem Turan'', ''cem@x.com'')]"

section \<open>The calendar service (server.py, \<open>CalendarManager.schedule\<close>)\<close>

text \<open>
  \<open>datetime.fromisoformat\<close> is a parameter of the environment, as is the outcome of the
  insert request; the calendar is the list of the events inserted. \<open>replace("Z", "")\<close>
  removes every letter Z.
\<close>

record event =
  summary :: string
  start_dateTime :: string
  start_timeZone :: string
  end_dateTime :: string
  end_timeZone :: string

record calendar_env =
  fromisoformat :: "string \<Rightarrow> exn + datetime"
  insert_exn :: "event \<Rightarrow> exn option"

definition tarih_hatasi :: string where
  "tarih_hatasi = ''Tarih hatas'' @ [CHR 0xC4, CHR 0xB1]"

definition takvim_hatasi :: string where
  "takvim_hatasi = ''Takvim Hatas'' @ [CHR 0xC4, CHR 0xB1] @ '': ''"

definition schedule_try ::
  "calendar_env \<Rightarrow> event list \<Rightarrow> string \<Rightarrow> string \<Rightarrow> (exn + string) \<times> event list" where
  "schedule_try env events summ iso_datetime =
     (if iso_datetime = [] then (Inr tarih_hatasi, events)
      else case fromisoformat env (filter (\<lambda>c. c \<noteq> CHR ''Z'') iso_datetime) of
             Inl e \<Rightarrow> (Inl e, events)
           | Inr start_dt \<Rightarrow>
               (case add_hour start_dt of
                  Inl e \<Rightarrow> (Inl e, events)
                | Inr end_dt \<Rightarrow>
                    (case insert_exn env
                            \<lparr>summary = summ,
                             start_dateTime = isoformat start_dt,
                             start_timeZone = ''Europe/Istanbul'',
                             end_dateTime = isoformat end_dt,
                             end_timeZone = ''Europe/Istanbul''\<rparr> of
                       Some e \<Rightarrow> (Inl e, events)
                     | None \<Rightarrow>
                         (Inr (''Takvime Eklendi: '' @ time_str start_dt),
                          events @ [\<lparr>summary = summ,
                                     start_dateTime = isoformat start_dt,
                                     start_timeZone = ''Europe/Istanbul'',
                                     end_dateTime = isoformat end_dt,
                                     end_timeZone = ''Europe/Istanbul''\<rparr>]))))"

definition schedule ::
  "calendar_env \<Rightarrow> event list \<Rightarrow> string \<Rightarrow> string \<Rightarrow> (exn + string) \<times> event list" where
  "schedule env events summ iso_datetime =
     (case schedule_try env events summ iso_datetime of
        (Inr r, events') \<Rightarrow> (Inr r, events')
      | (Inl e, events') \<Rightarrow> (Inr (takvim_hatasi @ str_exn e), events'))"

text \<open>
  A table of values of \<open>datetime.fromisoformat\<close>, for the concrete runs below.
\<close>

definition fromisoformat_sample :: "string \<Rightarrow> exn + datetime" where
  "fromisoformat_sample s =
     (if s = ''2026-01-05T10:00:00''
      then Inr \<lparr>year = 2026, month = 1, day = 5, hour = 10, minute = 0, second = 0,
                microsecond = 0, offset = []\<rparr>
      else Inl (Exception (''Invalid isoformat string: '' @ [CHR 0x27] @ s @ [CHR 0x27])))"

text \<open>
  Modelled from the spec: "stripping a trailing Z" takes one letter Z off the end of the
  text, when there is one.
\<close>

definition strip_trailing_Z :: "string \<Rightarrow> string" where
  "strip_trailing_Z s = (if s \<noteq> [] \<and> last s = CHR ''Z'' then butlast s else s)"

text \<open>
  For the concrete runs below: a calendar environment that decodes with the table above
  and whose insert request succeeds, and the meeting of Monday 2026-01-05 at ten.
\<close>

definition calendar_sample :: calendar_env where
  "calendar_sample = \<lparr>fromisoformat = fromisoformat_sample, insert_exn = (\<lambda>ev. None)\<rparr>"

definition monday_ten :: datetime where
  "monday_ten =
     \<lparr>year = 2026, month = 1, day = 5, hour = 10, minute = 0, second = 0, microsecond = 0,
      offset = []\<rparr>"

definition meeting_event :: event where
  "meeting_event =
     \<lparr>summary = ''Toplanti'', start_dateTime = ''2026-01-05T10:00:00'',
      start_timeZone = ''Europe/Istanbul'', end_dateTime = ''2026-01-05T11:00:00'',
      end_timeZone = ''Europe/Istanbul''\<rparr>"

section \<open>Facts about searching and trimming\<close>









lemma drop_ws_stop:
  "List.find (\<lambda>w. w \<noteq> [] \<and> prefix w s) ws = None \<Longrightarrow> drop_ws ws s = s"
  by (subst drop_ws.simps) simp

lemma drop_ws_step:
  "List.find (\<lambda>w. w \<noteq> [] \<and> prefix w s) ws = Some w \<Longrightarrow>
   drop_ws ws s = drop_ws ws (drop (length w) s)"
  by (subst drop_ws.simps) simp

lemma drop_ws_Nil: "drop_ws ws [] = []"
  by (rule drop_ws_stop) (simp add: find_None_iff)


lemma drop_ws_head:
  assumes own: "\<And>w. w \<in> set ws \<Longrightarrow> c \<in> set w \<Longrightarrow> w = [c]" and mem: "[c] \<in> set ws"
  shows "drop_ws ws (c # s) = drop_ws ws s"
proof -
  from mem have "\<exists>w\<in>set ws. w \<noteq> [] \<and> prefix w (c # s)" by (intro bexI [of _ "[c]"]) simp_all
  then obtain w where f: "List.find (\<lambda>w. w \<noteq> [] \<and> prefix w (c # s)) ws = Some w"
    by (cases "List.find (\<lambda>w. w \<noteq> [] \<and> prefix w (c # s)) ws") (auto simp: find_None_iff)
  then have w: "w \<in> set ws" "w \<noteq> []" "prefix w (c # s)"
    by (auto simp: find_Some_iff)
  from w(2,3) have "c \<in> set w" by (cases w) auto
  with own w(1) have "w = [c]" by blast
  with drop_ws_step [OF f] show ?thesis by simp
qed





lemma drop_ws_keep:
  assumes "\<And>w. w \<in> set ws \<Longrightarrow> w \<noteq> [] \<Longrightarrow> hd w \<noteq> c"
  shows "drop_ws ws (c # cs) = c # cs"
proof (rule drop_ws_stop)
  have "\<not> (w \<noteq> [] \<and> prefix w (c # cs))" if "w \<in> set ws" for w
  proof
    assume a: "w \<noteq> [] \<and> prefix w (c # cs)"
    then have "hd w = c" by (cases w) auto
    with assms [OF that] a show False by simp
  qed
  then show "List.find (\<lambda>w. w \<noteq> [] \<and> prefix w (c # cs)) ws = None"
    by (simp add: find_None_iff)
qed

lemma ws_heads:
  "hd ` set whitespace =
     {CHR 0x09, CHR 0x0A, CHR 0x0B, CHR 0x0C, CHR 0x0D, CHR 0x1C, CHR 0x1D, CHR 0x1E, CHR 0x1F,
      CHR 0x20, CHR 0xC2, CHR 0xE1, CHR 0xE2, CHR 0xE3}"
  by (auto simp: whitespace_def)

lemma ws_lasts:
  "last ` set whitespace =
     {CHR 0x09, CHR 0x0A, CHR 0x0B, CHR 0x0C, CHR 0x0D, CHR 0x1C, CHR 0x1D, CHR 0x1E, CHR 0x1F,
      CHR 0x20, CHR 0x85, CHR 0xA0, CHR 0x80, CHR 0x81, CHR 0x82, CHR 0x83, CHR 0x84, CHR 0x86,
      CHR 0x87, CHR 0x88, CHR 0x89, CHR 0x8A, CHR 0xA8, CHR 0xA9, CHR 0xAF, CHR 0x9F}"
  by (auto simp: whitespace_def)

text \<open>A text that neither starts nor ends with a byte of a whitespace encoding is kept.\<close>

lemma strip_py_keep:
  assumes ne: "s \<noteq> []" and h: "hd s \<notin> hd ` set whitespace"
    and l: "last s \<notin> last ` set whitespace"
  shows "strip_py s = s"
proof -
  from ne obtain c cs where s: "s = c # cs" by (cases s) auto
  have "drop_ws whitespace (c # cs) = c # cs"
    using h s by (intro drop_ws_keep) auto
  with s have front: "drop_ws whitespace s = s" by simp
  have "rev (butlast s @ [last s]) = last s # rev (butlast s)" by simp
  with ne have r: "rev s = last s # rev (butlast s)" by simp
  have rear: "drop_ws (map rev whitespace) (rev s) = rev s"
    unfolding r
  proof (rule drop_ws_keep)
    fix w assume "w \<in> set (map rev whitespace)" "w \<noteq> []"
    then obtain v where v: "v \<in> set whitespace" "w = rev v" "v \<noteq> []" by auto
    then have "hd w = last v" by (simp add: hd_rev)
    with v l show "hd w \<noteq> last s" by force
  qed
  from front rear show ?thesis by (simp add: strip_py_def)
qed

lemma strip_py_Nil: "strip_py [] = []"
  by (simp add: strip_py_def drop_ws_Nil)

lemma strip_py_blank: "strip_py '' '' = []"
proof -
  have "drop_ws whitespace (CHR 0x20 # []) = drop_ws whitespace []"
    by (rule drop_ws_head) (auto simp: whitespace_def)
  then show ?thesis by (simp add: strip_py_def drop_ws_Nil)
qed

section \<open>What the second pass cuts out of a fenced text\<close>












section \<open>The sanitizer and fenced code blocks\<close>




section \<open>The sanitizer and exceptions\<close>

text \<open>
  What the sanitizer does keep of the claim: it returns whenever the first decode raises
  nothing but \<open>JSONDecodeError\<close>, and it returns \<open>None\<close> when both passes fail.
\<close>

lemma sanitizer_returns_on_decode_errors:
  assumes "\<And>m. loads text \<noteq> Inl (Exception m)"
  shows "\<exists>r. clean_and_parse_json loads text = Inr r"
proof (cases "loads text")
  case (Inr v)
  then show ?thesis by (simp add: clean_and_parse_json_def)
next
  case (Inl e)
  with assms obtain m where "loads text = Inl (JSONDecodeError m)" by (cases e) auto
  then show ?thesis by (simp add: clean_and_parse_json_def split: sum.splits)
qed

lemma sanitizer_none_when_both_passes_fail:
  assumes "loads text = Inl (JSONDecodeError m)"
    and "\<And>t. fenced_interior text = Inr t \<Longrightarrow> \<exists>e. loads (strip_py t) = Inl e"
  shows "clean_and_parse_json loads text = Inr None"
proof (cases "fenced_interior text")
  case (Inl e)
  with assms(1) show ?thesis by (simp add: clean_and_parse_json_def)
next
  case (Inr t)
  from assms(2) [OF Inr] obtain e where "loads (strip_py t) = Inl e" by blast
  with assms(1) Inr show ?thesis by (simp add: clean_and_parse_json_def)
qed

text \<open>
  Claim C5 at a failing input. The first \<open>json.loads\<close> is guarded by
  \<open>except json.JSONDecodeError\<close> only. On a text of 100000 opening brackets the decoder
  raises RecursionError, which that handler does not catch: the sanitizer raises,
  where the claim and the docstring of the function promise \<open>None\<close>.
\<close>

theorem C5_sanitizer_raises_on_deep_nesting:
  "clean_and_parse_json loads_sample (replicate 100000 CHR ''['')
     = Inl (Exception ''maximum recursion depth exceeded while decoding a JSON array from a unicode string'')"
  by (simp add: clean_and_parse_json_def loads_sample_def list_all_iff)

section \<open>Calendar arithmetic\<close>

lemma year_step_linear:
  fixes a b c z :: nat
  assumes "b \<le> a"
  shows "Suc z * 365 + a - b + c = z * 365 + a - b + c + 365"
    and "Suc z * 365 + Suc a - b + c = z * 365 + a - b + c + 366"
    and "Suc z * 365 + Suc a - Suc b + c = z * 365 + a - b + c + 365"
    and "Suc z * 365 + Suc a - Suc b + Suc c = z * 365 + a - b + c + 366"
  using assms by simp_all

lemma days_before_year_Suc:
  assumes "1 \<le> y"
  shows "days_before_year (Suc y) = days_before_year y + (if is_leap y then 366 else 365)"
proof -
  obtain z where y: "y = Suc z" using assms by (cases y) auto
  have m100: "Suc z mod 100 = 0 \<Longrightarrow> Suc z mod 4 = 0"
    using mod_mod_cancel [of 4 100 "Suc z"] by simp
  have m400: "Suc z mod 400 = 0 \<Longrightarrow> Suc z mod 100 = 0"
    using mod_mod_cancel [of 100 400 "Suc z"] by simp
  have le: "z div 100 \<le> z div 4" by (rule div_le_mono2) simp_all
  note lin = year_step_linear [OF le, of z "z div 400"]
  have d4: "Suc z div 4 = (if Suc z mod 4 = 0 then Suc (z div 4) else z div 4)"
    by (rule div_Suc)
  have d100: "Suc z div 100 = (if Suc z mod 100 = 0 then Suc (z div 100) else z div 100)"
    by (rule div_Suc)
  have d400: "Suc z div 400 = (if Suc z mod 400 = 0 then Suc (z div 400) else z div 400)"
    by (rule div_Suc)
  have "Suc z * 365 + Suc z div 4 - Suc z div 100 + Suc z div 400
      = z * 365 + z div 4 - z div 100 + z div 400
        + (if Suc z mod 4 = 0 \<and> (Suc z mod 100 \<noteq> 0 \<or> Suc z mod 400 = 0) then 366 else 365)"
  proof (cases "Suc z mod 4 = 0")
    case False
    with m100 have n100: "Suc z mod 100 \<noteq> 0" by blast
    with m400 have n400: "Suc z mod 400 \<noteq> 0" by blast
    from False n100 n400 show ?thesis
      by (simp only: d4 d100 d400 if_False lin(1) simp_thms)
  next
    case c4: True
    show ?thesis
    proof (cases "Suc z mod 100 = 0")
      case False
      with m400 have "Suc z mod 400 \<noteq> 0" by blast
      with c4 False show ?thesis
        by (simp only: d4 d100 d400 if_False if_True lin(2) simp_thms)
    next
      case c100: True
      show ?thesis
      proof (cases "Suc z mod 400 = 0")
        case True
        with c4 c100 show ?thesis
          by (simp only: d4 d100 d400 if_False if_True lin(4) simp_thms)
      next
        case False
        with c4 c100 show ?thesis
          by (simp only: d4 d100 d400 if_False if_True lin(3) simp_thms)
      qed
    qed
  qed
  then show ?thesis by (simp only: y days_before_year_def is_leap_def diff_Suc_1)
qed

lemma days_before_month_Suc:
  "1 \<le> m \<Longrightarrow> days_before_month y (Suc m) = days_before_month y m + days_in_month y m"
  by (simp add: days_before_month_def)

lemma months_before_december: "[1..<12] = [1, 2, 3, 4, 5, 6, 7, 8, 9, 10, 11 :: nat]"
  by (simp add: upt_conv_Cons)

lemma days_before_month_12:
  "days_before_month y 12 = (if is_leap y then 335 else 334)"
  by (simp only: days_before_month_def months_before_december) (simp add: days_in_month_def)

lemma days_before_month_1: "days_before_month y (Suc 0) = 0"
  by (simp add: days_before_month_def)

lemma days_in_month_ge: "1 \<le> days_in_month y m"
  by (simp add: days_in_month_def)

lemma next_day_ordinal:
  assumes v: "valid_datetime d" and n: "next_day d = Inr d'"
  shows "toordinal d' = toordinal d + 1 \<and> valid_datetime d'
       \<and> hour d' = hour d \<and> minute d' = minute d \<and> second d' = second d"
proof (cases "day d < days_in_month (year d) (month d)")
  case True
  with n have "d' = d\<lparr>day := day d + 1\<rparr>" by (simp add: next_day_def)
  with v True show ?thesis by (simp add: toordinal_def valid_datetime_def)
next
  case eom: False
  with v have dd: "day d = days_in_month (year d) (month d)" by (simp add: valid_datetime_def)
  show ?thesis
  proof (cases "month d < 12")
    case True
    with n eom have d': "d' = d\<lparr>month := month d + 1, day := 1\<rparr>" by (simp add: next_day_def)
    from v have "1 \<le> month d" by (simp add: valid_datetime_def)
    from days_before_month_Suc [OF this, of "year d"] d' dd
    have "toordinal d' = toordinal d + 1" by (simp add: toordinal_def)
    moreover from v True d' days_in_month_ge [of "year d" "month d + 1"]
    have "valid_datetime d'" by (simp add: valid_datetime_def)
    ultimately show ?thesis using d' by simp
  next
    case False
    with v have m: "month d = 12" by (simp add: valid_datetime_def)
    with n eom have y: "year d < 9999" and d': "d' = d\<lparr>year := year d + 1, month := 1, day := 1\<rparr>"
      by (auto simp: next_day_def split: if_splits)
    from v have y1: "1 \<le> year d" by (simp add: valid_datetime_def)
    from m dd have "day d = 31" by (simp add: days_in_month_def)
    with days_before_year_Suc [OF y1] days_before_month_12 [of "year d"] m d'
    have "toordinal d' = toordinal d + 1"
      by (simp add: toordinal_def days_before_month_1)
    moreover from v y d' have "valid_datetime d'"
      by (simp add: valid_datetime_def days_in_month_def)
    ultimately show ?thesis using d' by simp
  qed
qed





lemma add_hour_seconds:
  assumes v: "valid_datetime d" and a: "add_hour d = Inr d'"
  shows "seconds_of d' = seconds_of d + 3600"
proof (cases "hour d < 23")
  case True
  with a have "d' = d\<lparr>hour := hour d + 1\<rparr>" by (simp add: add_hour_def)
  then show ?thesis by (simp add: seconds_of_def toordinal_def)
next
  case False
  with v have h: "hour d = 23" by (simp add: valid_datetime_def)
  with a obtain d1 where n1: "next_day d = Inr d1" and d': "d' = d1\<lparr>hour := 0\<rparr>"
    by (auto simp: add_hour_def split: sum.splits)
  from next_day_ordinal [OF v n1] d' h show ?thesis
    by (simp add: seconds_of_def toordinal_def)
qed

lemma add_days_numeral:
  "add_days (numeral k) d =
     (case next_day d of Inl e \<Rightarrow> Inl e | Inr d' \<Rightarrow> add_days (pred_numeral k) d')"
  by (simp add: numeral_eq_Suc)


lemma get_time_context_fst:
  "fst (get_time_context dn c) =
     (case add_days 1 (samples c (reads c)) of
        Inl e \<Rightarrow> Inl e
      | Inr tm \<Rightarrow>
          (case add_days 7 (samples c (reads c)) of
             Inl e \<Rightarrow> Inl e
           | Inr nw \<Rightarrow> Inr (time_block dn (samples c (reads c)) tm nw)))"
  by (simp add: get_time_context_def clock_now_def split: sum.splits)

lemma sunday_plus_1:
  "add_days 1 sunday_morning = Inr (sunday_morning\<lparr>day := 5\<rparr>)"
  by (simp add: sunday_morning_def next_day_def days_in_month_def)

lemma sunday_plus_7:
  "add_days 7 sunday_morning = Inr (sunday_morning\<lparr>day := 11\<rparr>)"
  by (simp add: add_days_numeral sunday_morning_def next_day_def days_in_month_def)

lemma time_context_sample:
  "fst (get_time_context dn clock_sample) =
     Inr (time_block dn sunday_morning (sunday_morning\<lparr>day := 5\<rparr>)
            (sunday_morning\<lparr>day := 11\<rparr>))"
proof -
  have s: "samples clock_sample (reads clock_sample) = sunday_morning"
    by (simp add: clock_sample_def)
  show ?thesis unfolding get_time_context_fst s sunday_plus_1 sunday_plus_7 by simp
qed



section \<open>The intent engine: the temporal context first, then the fallback\<close>

lemma summary_after_context:
  assumes "fst (get_time_context dn c) = Inr tc"
  shows "fst (generate_summary_and_reply dn loads reply c) =
           (case summary_try loads reply of
              Inr result \<Rightarrow> Inr result
            | Inl e \<Rightarrow> Inr (summary_fallback e))"
proof (cases "get_time_context dn c")
  case (Pair r c')
  with assms have "r = Inr tc" by simp
  with Pair show ?thesis
    by (simp add: generate_summary_and_reply_def split: sum.splits)
qed

lemma action_after_context:
  assumes "fst (get_time_context dn c) = Inr tc"
  shows "fst (decide_action dn loads reply c) =
           (case action_try loads reply of
              Inr result \<Rightarrow> Inr result
            | Inl e \<Rightarrow> Inr action_error)"
proof (cases "get_time_context dn c")
  case (Pair r c')
  with assms have "r = Inr tc" by simp
  with Pair show ?thesis
    by (simp add: decide_action_def split: sum.splits)
qed





text \<open>The two operations as the router's engine runs them, on the sample engine.\<close>

lemma ai_summary_returning:
  "ai_summary (ai_returning content) =
     (case summary_try loads_sample (Inr content) of
        Inr result \<Rightarrow> Inr result
      | Inl e \<Rightarrow> Inr (summary_fallback e))"
  by (simp add: ai_summary_def ai_returning_def summary_after_context [OF time_context_sample])

lemma ai_action_returning:
  "ai_action (ai_returning content) =
     (case action_try loads_sample (Inr content) of
        Inr result \<Rightarrow> Inr result
      | Inl e \<Rightarrow> Inr action_error)"
  by (simp add: ai_action_def ai_returning_def action_after_context [OF time_context_sample])





section \<open>One result per task\<close>

lemma run_singleton: "\<exists>r. run gw ai search task payload = [r]"
  by (simp add: run_def split: sum.splits option.splits)

lemma merged_status:
  "([''status'' \<mapsto> JStr st] ++ map_of kvs) ''status'' = Some (JStr ''error'') \<Longrightarrow>
   st \<noteq> ''error'' \<Longrightarrow> map_of kvs ''status'' = Some (JStr ''error'')"
  by (auto simp: map_add_def split: option.splits)

lemma task_body_analyze:
  "snd (task_body ai search call ''analyze_last_mail'' payload) = Inr r \<Longrightarrow>
   \<exists>cs raw kvs. call ''get_latest_email'' [] = Inr cs \<and> first_text cs = Inr raw
      \<and> ai_summary ai = Inr (JObj kvs)
      \<and> r = Some ([''status'' \<mapsto> JStr ''success'', ''raw_mail'' \<mapsto> JStr raw,
                    ''sender'' \<mapsto> opt_str (search raw)] ++ map_of kvs)"
  by (auto simp: task_body_def split: sum.splits json.splits)

lemma task_body_process:
  "snd (task_body ai search call ''process_command'' payload) = Inr r \<Longrightarrow>
   \<exists>kvs fe. ai_action ai = Inr (JObj kvs)
      \<and> r = Some ([''status'' \<mapsto> JStr ''command_processed'', ''found_email'' \<mapsto> fe]
                   ++ map_of kvs)"
  by (auto simp: task_body_def split: sum.splits json.splits if_splits)

lemma task_body_send:
  "snd (task_body ai search call ''send_reply'' payload) = Inr r \<Longrightarrow>
   r = Some [''status'' \<mapsto> JStr ''sent'']"
  by (auto simp: task_body_def split: sum.splits)

lemma task_body_calendar:
  "snd (task_body ai search call ''add_calendar'' payload) = Inr r \<Longrightarrow>
   \<exists>text. r = Some [''status'' \<mapsto> JStr ''calendar_added'', ''msg'' \<mapsto> JStr text]"
  by (auto simp: task_body_def split: sum.splits)

lemma run_async_Inr:
  "snd (run_async gw ai search task payload) = Inr r \<Longrightarrow>
   snd (task_body ai search (call_tool gw) task payload) = Inr r"
  by (auto simp: run_async_def split: option.splits prod.splits)

lemma four_tasks_result:
  assumes t: "task = ''analyze_last_mail'' \<or> task = ''process_command''
              \<or> task = ''send_reply'' \<or> task = ''add_calendar''"
    and b: "snd (task_body ai search call task payload) = Inr r"
  shows "\<exists>res. r = Some res
      \<and> (res ''status'' = Some (JStr ''error'') \<longrightarrow>
           (\<exists>kvs. (ai_summary ai = Inr (JObj kvs)
                    \<or> ai_action ai = Inr (JObj kvs))
                 \<and> map_of kvs ''status'' = Some (JStr ''error'')))"
proof -
  from t consider (a) "task = ''analyze_last_mail''" | (p) "task = ''process_command''"
    | (s) "task = ''send_reply''" | (c) "task = ''add_calendar''" by blast
  then show ?thesis
  proof cases
    case a
    with b task_body_analyze [of ai search call payload r] obtain raw kvs where
      g: "ai_summary ai = Inr (JObj kvs)"
      and r: "r = Some ([''status'' \<mapsto> JStr ''success'', ''raw_mail'' \<mapsto> JStr raw,
                    ''sender'' \<mapsto> opt_str (search raw)] ++ map_of kvs)" by blast
    have "([''status'' \<mapsto> JStr ''success'', ''raw_mail'' \<mapsto> JStr raw,
            ''sender'' \<mapsto> opt_str (search raw)] ++ map_of kvs) ''status'' = Some (JStr ''error'')
          \<Longrightarrow> map_of kvs ''status'' = Some (JStr ''error'')"
      by (auto simp: map_add_def split: option.splits)
    with g r show ?thesis by blast
  next
    case p
    with b task_body_process [of ai search call payload r] obtain kvs fe where
      g: "ai_action ai = Inr (JObj kvs)"
      and r: "r = Some ([''status'' \<mapsto> JStr ''command_processed'', ''found_email'' \<mapsto> fe]
                   ++ map_of kvs)" by blast
    have "([''status'' \<mapsto> JStr ''command_processed'', ''found_email'' \<mapsto> fe]
                   ++ map_of kvs) ''status'' = Some (JStr ''error'')
          \<Longrightarrow> map_of kvs ''status'' = Some (JStr ''error'')"
      by (auto simp: map_add_def split: option.splits)
    with g r show ?thesis by blast
  next
    case s
    with b task_body_send [of ai search call payload r] show ?thesis by simp
  next
    case c
    with b task_body_calendar [of ai search call payload r] show ?thesis by auto
  qed
qed

text \<open>
  Claim C1, as the code has it. For each of the four task kinds one run emits exactly
  one dictionary. If an exception is raised while the task runs, that dictionary is
  \<open>{"status": "error", "msg": str(e)}\<close>, with the text of the exception as it is. If no
  exception is raised, the dictionary is the one the branch built, and its status is
  "error" only when the record of the intent engine itself has the key \<open>status\<close>
  with that value.
\<close>

theorem C1_one_result_per_task:
  assumes t: "task = ''analyze_last_mail'' \<or> task = ''process_command''
              \<or> task = ''send_reply'' \<or> task = ''add_calendar''"
  shows "\<exists>r. run gw ai search task payload = [r]
     \<and> (\<forall>e. snd (run_async gw ai search task payload) = Inl e \<longrightarrow>
            r = error_result e \<and> r ''status'' = Some (JStr ''error'')
            \<and> r ''msg'' = Some (JStr (str_exn e)))
     \<and> (\<forall>x. snd (run_async gw ai search task payload) = Inr x \<longrightarrow>
            x = Some r
            \<and> (r ''status'' = Some (JStr ''error'') \<longrightarrow>
                 (\<exists>kvs. (ai_summary ai = Inr (JObj kvs)
                          \<or> ai_action ai = Inr (JObj kvs))
                       \<and> map_of kvs ''status'' = Some (JStr ''error''))))"
proof (cases "snd (run_async gw ai search task payload)")
  case (Inl e)
  then show ?thesis by (simp add: run_def error_result_def)
next
  case (Inr x)
  from four_tasks_result [OF t run_async_Inr [OF Inr]] obtain res where
    "x = Some res" and "res ''status'' = Some (JStr ''error'') \<longrightarrow>
           (\<exists>kvs. (ai_summary ai = Inr (JObj kvs)
                    \<or> ai_action ai = Inr (JObj kvs))
                 \<and> map_of kvs ''status'' = Some (JStr ''error''))" by blast
  with Inr show ?thesis by (simp add: run_def)
qed


lemma parse_status_error:
  \<open>clean_and_parse_json loads_sample ''{"status": "error"}'' = Inr (Some (JObj [(''status'', JStr ''error'')]))\<close>
  by (simp add: clean_and_parse_json_def loads_sample_def)

lemma run_async_send_raising:
  "snd (run_async (gw_raising e) ai search ''send_reply'' payload) = Inl e"
  by (simp add: run_async_def task_body_def gw_raising_def)

theorem C1_one_result_per_task_witness:
  "run (gw_raising (Exception ''Connection closed'')) (ai_returning ''not json'') no_sender
       ''send_reply'' [] = [error_result (Exception ''Connection closed'')]
   \<and> error_result (Exception ''Connection closed'') ''status'' = Some (JStr ''error'')
   \<and> error_result (Exception ''Connection closed'') ''msg'' = Some (JStr ''Connection closed'')"
proof -
  have t: "''send_reply'' = ''analyze_last_mail'' \<or> ''send_reply'' = ''process_command''
              \<or> ''send_reply'' = ''send_reply'' \<or> ''send_reply'' = ''add_calendar''" by simp
  from C1_one_result_per_task [OF t, of "gw_raising (Exception ''Connection closed'')"
      "ai_returning ''not json''" no_sender "[]"]
    run_async_send_raising [of "Exception ''Connection closed''" "ai_returning ''not json''" no_sender "[]"]
  have "run (gw_raising (Exception ''Connection closed'')) (ai_returning ''not json'') no_sender
       ''send_reply'' [] = [error_result (Exception ''Connection closed'')]" by auto
  then show ?thesis by (simp add: error_result_def)
qed

text \<open>
  Claim C1 as stated fails twice. A model output \<open>{"status": "error"}\<close> gives a result
  with status "error" although no exception is raised; and an exception whose text is
  empty (one raised without arguments) gives an error result with an empty message.
\<close>

theorem C1_error_status_counterexample:
  \<open>map (\<lambda>r. r ''status'')
      (run (gw_answering ''mail'') (ai_returning ''{"status": "error"}'') no_sender
         ''analyze_last_mail'' []) = [Some (JStr ''error'')]
   \<and> \<not> isl (snd (run_async (gw_answering ''mail'') (ai_returning ''{"status": "error"}'') no_sender
         ''analyze_last_mail'' []))
   \<and> map (\<lambda>r. r ''msg'')
      (run (gw_raising (Exception [])) (ai_returning ''not json'') no_sender ''send_reply'' [])
       = [Some (JStr [])]\<close>
  by (simp add: run_def run_async_def task_body_def gw_answering_def gw_raising_def
        ai_summary_returning summary_try_def parse_status_error error_result_def)

lemma run_of_body:
  "open_exn gw = None \<Longrightarrow> close_exn gw = None \<Longrightarrow>
   snd (task_body ai search (call_tool gw) task payload) = Inr (Some res) \<Longrightarrow>
   run gw ai search task payload = [res]"
  by (simp add: run_def run_async_def split: prod.splits)

lemma calls_of_body:
  "open_exn gw = None \<Longrightarrow>
   fst (run_async gw ai search task payload) = fst (task_body ai search (call_tool gw) task payload)"
  by (simp add: run_async_def split: prod.splits)


lemma body_process_call:
  assumes "ai_action ai = Inr (JObj kvs)"
    and "truthy (dict_get kvs ''target_name'')"
    and "call ''find_email_by_name'' [(''name'', dict_get kvs ''target_name'')] = Inr cs"
    and "first_text cs = Inr text"
  shows "task_body ai search call ''process_command'' payload =
         ([(''find_email_by_name'', [(''name'', dict_get kvs ''target_name'')])],
          Inr (Some ([''status'' \<mapsto> JStr ''command_processed'',
                      ''found_email'' \<mapsto> (if contains_py ''@'' text then JStr text else JNull)]
                     ++ map_of kvs)))"
  using assms by (simp add: task_body_def)

lemma body_process_nocall:
  assumes "ai_action ai = Inr (JObj kvs)"
    and "\<not> truthy (dict_get kvs ''target_name'')"
  shows "task_body ai search call ''process_command'' payload =
         ([], Inr (Some ([''status'' \<mapsto> JStr ''command_processed'', ''found_email'' \<mapsto> JNull]
                     ++ map_of kvs)))"
  using assms by (simp add: task_body_def)

section \<open>Key collisions between the router and the model output\<close>




section \<open>The result of a command whose contact is not resolved\<close>

text \<open>
  Claim C6, as the code has it. Let the session open and close without an exception and
  let the record of the intent engine have no key \<open>status\<close> and no key \<open>found_email\<close>.
  If its \<open>target_name\<close> is truthy and the resolver answers with a text, the result has
  status "command_processed", and \<open>found_email\<close> is that text when it contains an at
  sign and null otherwise. If \<open>target_name\<close> is null (or otherwise falsy), no tool is
  called, and the result has status "command_processed" and \<open>found_email\<close> null.
\<close>

theorem C6_unresolved_contact:
  assumes o: "open_exn gw = None" and c: "close_exn gw = None"
    and d: "ai_action ai = Inr (JObj kvs)"
    and ns: "map_of kvs ''status'' = None" and nf: "map_of kvs ''found_email'' = None"
  shows "(truthy (dict_get kvs ''target_name'')
          \<and> call_tool gw ''find_email_by_name'' [(''name'', dict_get kvs ''target_name'')] = Inr cs
          \<and> first_text cs = Inr text
          \<longrightarrow> (\<exists>res. run gw ai search ''process_command'' payload = [res]
                 \<and> res ''status'' = Some (JStr ''command_processed'')
                 \<and> res ''found_email'' = Some (if contains_py ''@'' text then JStr text else JNull)))
       \<and> (\<not> truthy (dict_get kvs ''target_name'')
          \<longrightarrow> fst (run_async gw ai search ''process_command'' payload) = []
             \<and> (\<exists>res. run gw ai search ''process_command'' payload = [res]
                 \<and> res ''status'' = Some (JStr ''command_processed'')
                 \<and> res ''found_email'' = Some JNull))"
proof (intro conjI impI)
  assume a: "truthy (dict_get kvs ''target_name'')
          \<and> call_tool gw ''find_email_by_name'' [(''name'', dict_get kvs ''target_name'')] = Inr cs
          \<and> first_text cs = Inr text"
  with d body_process_call [of ai kvs "call_tool gw" cs "text" search payload]
  have "snd (task_body ai search (call_tool gw) ''process_command'' payload) =
          Inr (Some ([''status'' \<mapsto> JStr ''command_processed'',
                      ''found_email'' \<mapsto> (if contains_py ''@'' text then JStr text else JNull)]
                     ++ map_of kvs))" by simp
  from run_of_body [OF o c this] ns nf
  show "\<exists>res. run gw ai search ''process_command'' payload = [res]
                 \<and> res ''status'' = Some (JStr ''command_processed'')
                 \<and> res ''found_email'' = Some (if contains_py ''@'' text then JStr text else JNull)"
    by (simp add: map_add_def)
next
  assume a: "\<not> truthy (dict_get kvs ''target_name'')"
  from body_process_nocall [OF d a, of search "call_tool gw" payload]
  have b: "task_body ai search (call_tool gw) ''process_command'' payload =
         ([], Inr (Some ([''status'' \<mapsto> JStr ''command_processed'', ''found_email'' \<mapsto> JNull]
                     ++ map_of kvs)))" .
  from b calls_of_body [OF o, of ai search "''process_command''" payload]
  show "fst (run_async gw ai search ''process_command'' payload) = []" by simp
  from b have "snd (task_body ai search (call_tool gw) ''process_command'' payload) =
         Inr (Some ([''status'' \<mapsto> JStr ''command_processed'', ''found_email'' \<mapsto> JNull]
                     ++ map_of kvs))" by simp
  from run_of_body [OF o c this] ns nf
  show "\<exists>res. run gw ai search ''process_command'' payload = [res]
                 \<and> res ''status'' = Some (JStr ''command_processed'')
                 \<and> res ''found_email'' = Some JNull"
    by (simp add: map_add_def)
qed

lemma action_target_ali:
  \<open>ai_action (ai_returning ''{"target_name": "Ali"}'') = Inr (JObj [(''target_name'', JStr ''Ali'')])\<close>
  by (simp add: ai_action_returning action_try_def clean_and_parse_json_def loads_sample_def)

theorem C6_unresolved_contact_witness:
  \<open>map (\<lambda>r. (r ''status'', r ''found_email''))
      (run (gw_answering ''BULUNAMADI'') (ai_returning ''{"target_name": "Ali"}'') no_sender
         ''process_command'' [(''command'', JStr ''Ali ile toplan'')])
     = [(Some (JStr ''command_processed''), Some JNull)]\<close>
proof -
  have o: "open_exn (gw_answering ''BULUNAMADI'') = None"
    and c: "close_exn (gw_answering ''BULUNAMADI'') = None"
    by (simp_all add: gw_answering_def)
  have ns: "map_of [(''target_name'', JStr ''Ali'')] ''status'' = None"
    and nf: "map_of [(''target_name'', JStr ''Ali'')] ''found_email'' = None" by simp_all
  have t: "truthy (dict_get [(''target_name'', JStr ''Ali'')] ''target_name'')
     \<and> call_tool (gw_answering ''BULUNAMADI'') ''find_email_by_name''
          [(''name'', dict_get [(''target_name'', JStr ''Ali'')] ''target_name'')]
        = Inr [TextContent ''BULUNAMADI'']
     \<and> first_text [TextContent ''BULUNAMADI''] = Inr ''BULUNAMADI''"
    by (simp add: gw_answering_def dict_get_def)
  have n: "\<not> contains_py ''@'' ''BULUNAMADI''" by (simp add: contains_py_def)
  from C6_unresolved_contact [OF o c action_target_ali ns nf,
      of "[TextContent ''BULUNAMADI'']" "''BULUNAMADI''" no_sender
         "[(''command'', JStr ''Ali ile toplan'')]"] t n
  obtain res where
    \<open>run (gw_answering ''BULUNAMADI'') (ai_returning ''{"target_name": "Ali"}'') no_sender
         ''process_command'' [(''command'', JStr ''Ali ile toplan'')] = [res]\<close>
    "res ''status'' = Some (JStr ''command_processed'')" "res ''found_email'' = Some JNull"
    by auto
  then show ?thesis by simp
qed

text \<open>
  Claim C6 as stated fails: the model output
  \<open>{"target_name": "Ali", "found_email": "x@y.z"}\<close> puts its own \<open>found_email\<close> into
  the result, although the resolver's answer contains no at sign.
\<close>

theorem C6_found_email_collision_counterexample:
  \<open>map (\<lambda>r. r ''found_email'')
      (run (gw_answering ''BULUNAMADI'')
         (ai_returning ''{"target_name": "Ali", "found_email": "x@y.z"}'') no_sender
         ''process_command'' [(''command'', JStr ''Ali ile toplan'')])
     = [Some (JStr ''x@y.z'')]
   \<and> \<not> contains_py ''@'' ''BULUNAMADI''\<close>
  by (simp add: run_def run_async_def task_body_def gw_answering_def ai_action_returning
        action_try_def clean_and_parse_json_def loads_sample_def dict_get_def contains_py_def)

section \<open>The contact resolver: sentinels\<close>

text \<open>
  Claim C7. \<open>find_email\<close> returns a text for every query, environment and cache, and
  never an exception. When the sheet id is not resolved (none, or empty) it returns the
  error sentinel "HATA: Rehber erisilemedi." (in its Turkish spelling). When the fetched table has
  fewer than two rows it returns the sentinel "Rehber bos." whatever the similarity
  function is, so no row is scored. Every exception raised while the table is read or
  scanned is returned as the text "HATA: " followed by the text of the exception.
\<close>

theorem C7_find_email_sentinels:
  "(\<exists>r. fst (find_email lo ra env cached name) = Inr r)
   \<and> (fst (get_sheet_id env cached) = None \<or> fst (get_sheet_id env cached) = Some []
        \<longrightarrow> fst (find_email lo ra env cached name) = Inr erisilemedi)
   \<and> (\<forall>sid rows. fst (get_sheet_id env cached) = Some sid \<and> sid \<noteq> []
          \<and> sheets_get env sid = Inr rows \<and> length rows < 2
        \<longrightarrow> fst (find_email lo ra env cached name) = Inr rehber_bos)
   \<and> (\<forall>sid e. fst (get_sheet_id env cached) = Some sid \<and> sid \<noteq> []
          \<and> find_email_try lo ra env sid name = Inl e
        \<longrightarrow> fst (find_email lo ra env cached name) = Inr (''HATA: '' @ str_exn e))"
  by (auto simp: find_email_def find_email_try_def split: prod.splits option.splits sum.splits)

lemma get_sheet_id_found:
  "get_sheet_id (env_with_table rows) None = (Some ''sheet-1'', Some ''sheet-1'')"
  by (simp add: get_sheet_id_def env_with_table_def)

theorem C7_find_email_sentinels_witness:
  "fst (find_email lower_ascii ratio_sample env_unreachable None ''Engin'') = Inr erisilemedi
   \<and> fst (find_email lower_ascii ratio_sample (env_with_table [header_row]) None ''Engin'')
       = Inr rehber_bos
   \<and> fst (find_email lower_ascii ratio_sample (env_read_fails (Exception ''HttpError 500''))
            None ''Engin'') = Inr ''HATA: HttpError 500''"
proof -
  have a: "fst (get_sheet_id env_unreachable None) = None"
    by (simp add: get_sheet_id_def create_sheet_def env_unreachable_def)
  have b: "fst (get_sheet_id (env_with_table [header_row]) None) = Some ''sheet-1''
      \<and> ''sheet-1'' \<noteq> [] \<and> sheets_get (env_with_table [header_row]) ''sheet-1'' = Inr [header_row]
      \<and> length [header_row] < 2"
    by (simp add: get_sheet_id_def env_with_table_def)
  have c: "fst (get_sheet_id (env_read_fails (Exception ''HttpError 500'')) None) = Some ''sheet-1''
      \<and> ''sheet-1'' \<noteq> []
      \<and> find_email_try lower_ascii ratio_sample (env_read_fails (Exception ''HttpError 500''))
           ''sheet-1'' ''Engin'' = Inl (Exception ''HttpError 500'')"
    by (simp add: get_sheet_id_def env_read_fails_def find_email_try_def)
  from a C7_find_email_sentinels [of lower_ascii ratio_sample env_unreachable None "''Engin''"]
  have 1: "fst (find_email lower_ascii ratio_sample env_unreachable None ''Engin'') = Inr erisilemedi"
    by blast
  from b C7_find_email_sentinels [of lower_ascii ratio_sample "env_with_table [header_row]" None "''Engin''"]
  have 2: "fst (find_email lower_ascii ratio_sample (env_with_table [header_row]) None ''Engin'')
       = Inr rehber_bos" by blast
  from c C7_find_email_sentinels [of lower_ascii ratio_sample
      "env_read_fails (Exception ''HttpError 500'')" None "''Engin''"]
  have 3: "fst (find_email lower_ascii ratio_sample (env_read_fails (Exception ''HttpError 500''))
            None ''Engin'') = Inr (''HATA: '' @ str_exn (Exception ''HttpError 500''))" by blast
  from 1 2 3 show ?thesis by simp
qed

section \<open>The contact resolver: the loop against the two passes\<close>

lemma scan_rows_record:
  "scan_rows lo ra t ([CStr n, CStr e] # rows) b h =
     (if contains_py t (norm_name lo n) then Inr (strip_py e)
      else if 6 / 10 < ra t (norm_name lo n) \<and> h < ra t (norm_name lo n)
           then scan_rows lo ra t rows (Some (strip_py e)) (ra t (norm_name lo n))
           else scan_rows lo ra t rows b h)"
  by (simp add: norm_name_def)

lemma scan_rows_contains:
  assumes "List.find (\<lambda>r. contains_py t (norm_name lo (fst r))) recs = Some r"
  shows "scan_rows lo ra t (map (\<lambda>r. [CStr (fst r), CStr (snd r)]) recs) b h = Inr (strip_py (snd r))"
  using assms
proof (induction recs arbitrary: b h)
  case Nil
  then show ?case by simp
next
  case (Cons x xs)
  show ?case
  proof (cases "contains_py t (norm_name lo (fst x))")
    case True
    with Cons.prems have "r = x" by simp
    with True show ?thesis by (simp only: list.map scan_rows_record if_True)
  next
    case False
    with Cons.prems have "List.find (\<lambda>r. contains_py t (norm_name lo (fst r))) xs = Some r"
      by simp
    from Cons.IH [OF this] False show ?thesis
      by (simp only: list.map scan_rows_record if_False split: if_splits) simp
  qed
qed

lemma Max_cons_later:
  fixes f :: "'a \<Rightarrow> real"
  assumes "r \<in> set xs" "f x < f r"
  shows "Max (f ` set (x # xs)) = Max (f ` set xs) \<and> f x \<noteq> Max (f ` set xs)"
proof -
  have ne: "f ` set xs \<noteq> {}" using assms(1) by auto
  have "f r \<le> Max (f ` set xs)" using assms(1) by simp
  with assms(2) have lt: "f x < Max (f ` set xs)" by simp
  have "Max (f ` set (x # xs)) = max (f x) (Max (f ` set xs))"
    using ne by simp
  with lt show ?thesis by simp
qed

lemma Max_cons_first:
  fixes f :: "'a \<Rightarrow> real"
  assumes "\<forall>r\<in>set xs. f r \<le> f x"
  shows "Max (f ` set (x # xs)) = f x"
proof (cases "xs = []")
  case True
  then show ?thesis by simp
next
  case False
  then have ne: "f ` set xs \<noteq> {}" by simp
  have "Max (f ` set xs) \<le> f x" using assms ne by simp
  moreover have "Max (f ` set (x # xs)) = max (f x) (Max (f ` set xs))"
    using ne by simp
  ultimately show ?thesis by simp
qed

lemma scan_rows_fuzzy:
  fixes sc :: "string \<times> string \<Rightarrow> real"
  assumes sc: "sc = (\<lambda>r. ra t (norm_name lo (fst r)))"
    and none: "List.find (\<lambda>r. contains_py t (norm_name lo (fst r))) recs = None"
  shows "((\<exists>r\<in>set recs. 6 / 10 < sc r \<and> h < sc r) \<longrightarrow>
            (\<exists>r. List.find (\<lambda>r. sc r = Max (sc ` set recs)) recs = Some r
               \<and> scan_rows lo ra t (map (\<lambda>r. [CStr (fst r), CStr (snd r)]) recs) b h
                    = Inr (after_loop (Some (strip_py (snd r))))))
       \<and> (\<not> (\<exists>r\<in>set recs. 6 / 10 < sc r \<and> h < sc r) \<longrightarrow>
            scan_rows lo ra t (map (\<lambda>r. [CStr (fst r), CStr (snd r)]) recs) b h
              = Inr (after_loop b))"
  using none
proof (induction recs arbitrary: b h)
  case Nil
  then show ?case by (simp add: after_loop_def)
next
  case (Cons x xs)
  from Cons.prems have nx: "\<not> contains_py t (norm_name lo (fst x))"
    and nxs: "List.find (\<lambda>r. contains_py t (norm_name lo (fst r))) xs = None"
    by (auto split: if_splits)
  note IH = Cons.IH [OF nxs]
  let ?rows = "map (\<lambda>r. [CStr (fst r), CStr (snd r)]) xs"
  have scx: "ra t (norm_name lo (fst x)) = sc x" by (simp add: sc)
  show ?case
  proof (cases "6 / 10 < sc x \<and> h < sc x")
    case True
    have step: "scan_rows lo ra t (map (\<lambda>r. [CStr (fst r), CStr (snd r)]) (x # xs)) b h
          = scan_rows lo ra t ?rows (Some (strip_py (snd x))) (sc x)"
      using nx True by (auto simp add: scan_rows_record scx simp del: scan_rows.simps)
    have ex: "\<exists>r\<in>set (x # xs). 6 / 10 < sc r \<and> h < sc r" using True by auto
    show ?thesis
    proof (cases "\<exists>r\<in>set xs. 6 / 10 < sc r \<and> sc x < sc r")
      case A1: True
      with IH [of "sc x" "Some (strip_py (snd x))"] obtain r where
        f: "List.find (\<lambda>r. sc r = Max (sc ` set xs)) xs = Some r"
        and s: "scan_rows lo ra t ?rows (Some (strip_py (snd x))) (sc x)
                  = Inr (after_loop (Some (strip_py (snd r))))" by blast
      from A1 obtain r0 where "r0 \<in> set xs" "sc x < sc r0" by blast
      from Max_cons_later [OF this]
      have m: "Max (sc ` set (x # xs)) = Max (sc ` set xs)" "sc x \<noteq> Max (sc ` set xs)" by simp_all
      have "List.find (\<lambda>r. sc r = Max (sc ` set (x # xs))) (x # xs) = Some r"
        using m f by simp
      moreover have "scan_rows lo ra t (map (\<lambda>r. [CStr (fst r), CStr (snd r)]) (x # xs)) b h
                 = Inr (after_loop (Some (strip_py (snd r))))"
        by (simp only: step s)
      ultimately show ?thesis using ex by blast
    next
      case A2: False
      with IH [of "sc x" "Some (strip_py (snd x))"]
      have s: "scan_rows lo ra t ?rows (Some (strip_py (snd x))) (sc x)
                 = Inr (after_loop (Some (strip_py (snd x))))" by blast
      have "\<forall>r\<in>set xs. sc r \<le> sc x"
      proof
        fix r assume "r \<in> set xs"
        with A2 have "\<not> (6 / 10 < sc r \<and> sc x < sc r)" by blast
        with True show "sc r \<le> sc x" by auto
      qed
      from Max_cons_first [OF this]
      have "List.find (\<lambda>r. sc r = Max (sc ` set (x # xs))) (x # xs) = Some x" by simp
      moreover have "scan_rows lo ra t (map (\<lambda>r. [CStr (fst r), CStr (snd r)]) (x # xs)) b h
                 = Inr (after_loop (Some (strip_py (snd x))))"
        by (simp only: step s)
      ultimately show ?thesis using ex by blast
    qed
  next
    case False
    have step: "scan_rows lo ra t (map (\<lambda>r. [CStr (fst r), CStr (snd r)]) (x # xs)) b h
          = scan_rows lo ra t ?rows b h"
      using nx False by (auto simp add: scan_rows_record scx simp del: scan_rows.simps)
    show ?thesis
    proof (cases "\<exists>r\<in>set xs. 6 / 10 < sc r \<and> h < sc r")
      case B1: True
      with IH [of h b] obtain r where
        f: "List.find (\<lambda>r. sc r = Max (sc ` set xs)) xs = Some r"
        and s: "scan_rows lo ra t ?rows b h = Inr (after_loop (Some (strip_py (snd r))))" by blast
      from B1 obtain r0 where r0: "r0 \<in> set xs" "6 / 10 < sc r0" "h < sc r0" by blast
      with False have "sc x < sc r0" by auto
      from Max_cons_later [OF r0(1) this]
      have m: "Max (sc ` set (x # xs)) = Max (sc ` set xs)" "sc x \<noteq> Max (sc ` set xs)" by simp_all
      have "List.find (\<lambda>r. sc r = Max (sc ` set (x # xs))) (x # xs) = Some r"
        using m f by simp
      moreover have "scan_rows lo ra t (map (\<lambda>r. [CStr (fst r), CStr (snd r)]) (x # xs)) b h
                 = Inr (after_loop (Some (strip_py (snd r))))"
        by (simp only: step s)
      moreover have "\<exists>r\<in>set (x # xs). 6 / 10 < sc r \<and> h < sc r" using B1 by auto
      ultimately show ?thesis by blast
    next
      case B2: False
      with IH [of h b] have s: "scan_rows lo ra t ?rows b h = Inr (after_loop b)" by blast
      have "\<not> (\<exists>r\<in>set (x # xs). 6 / 10 < sc r \<and> h < sc r)" using False B2 by auto
      moreover have "scan_rows lo ra t (map (\<lambda>r. [CStr (fst r), CStr (snd r)]) (x # xs)) b h
                 = Inr (after_loop b)"
        by (simp only: step s)
      ultimately show ?thesis by blast
    qed
  qed
qed

lemma find_trimmed:
  "List.find (\<lambda>r. P (fst r)) (map (\<lambda>r. (fst r, strip_py (snd r))) recs) =
     map_option (\<lambda>r. (fst r, strip_py (snd r))) (List.find (\<lambda>r. P (fst r)) recs)"
  by (induction recs) simp_all

lemma scores_trimmed:
  "map (\<lambda>r. f (fst r)) (map (\<lambda>r. (fst r, strip_py (snd r))) recs) = map (\<lambda>r. f (fst r)) recs"
  by simp

lemma two_pass_find_trimmed:
  "two_pass_find lo ra (map (\<lambda>r. (fst r, strip_py (snd r))) recs) query =
     (if recs = [] then rehber_bos
      else case List.find (\<lambda>r. contains_py (norm_name lo query) (norm_name lo (fst r))) recs of
             Some r \<Rightarrow> strip_py (snd r)
           | None \<Rightarrow>
               (let m = Max (set (map (\<lambda>r. ra (norm_name lo query) (norm_name lo (fst r))) recs))
                in if 6 / 10 < m
                   then (case List.find
                                (\<lambda>r. ra (norm_name lo query) (norm_name lo (fst r)) = m) recs of
                           Some r \<Rightarrow> strip_py (snd r)
                         | None \<Rightarrow> bulunamadi)
                   else bulunamadi))"
proof -
  have a: "List.find (\<lambda>r. contains_py (norm_name lo query) (norm_name lo (fst r)))
             (map (\<lambda>r. (fst r, strip_py (snd r))) recs) =
           map_option (\<lambda>r. (fst r, strip_py (snd r)))
             (List.find (\<lambda>r. contains_py (norm_name lo query) (norm_name lo (fst r))) recs)"
    by (rule find_trimmed [where P = "\<lambda>n. contains_py (norm_name lo query) (norm_name lo n)"])
  have b: "\<And>m. List.find (\<lambda>r. ra (norm_name lo query) (norm_name lo (fst r)) = m)
             (map (\<lambda>r. (fst r, strip_py (snd r))) recs) =
           map_option (\<lambda>r. (fst r, strip_py (snd r)))
             (List.find (\<lambda>r. ra (norm_name lo query) (norm_name lo (fst r)) = m) recs)"
    by (rule find_trimmed [where P = "\<lambda>n. ra (norm_name lo query) (norm_name lo n) = m" for m])
  have c: "map (\<lambda>r. ra (norm_name lo query) (norm_name lo (fst r)))
             (map (\<lambda>r. (fst r, strip_py (snd r))) recs) =
           map (\<lambda>r. ra (norm_name lo query) (norm_name lo (fst r))) recs"
    by (rule scores_trimmed [where f = "\<lambda>n. ra (norm_name lo query) (norm_name lo n)"])
  show ?thesis
    unfolding two_pass_find_def a b c
    by (simp add: Let_def split: option.splits)
qed

text \<open>
  Claim C3, as the code has it. Let the fetched table be a header row followed by the
  rows of the contact records, no stored email blank (empty once trimmed, as
  \<open>str.strip\<close> trims it). Then for every query, every lowercasing and every similarity
  function the single loop of \<open>find_email\<close> returns what the two passes of the
  reference algorithm return on the records with their emails trimmed: the trimmed email
  of the first record whose name contains the query; when no record contains it, the
  trimmed email of the first record whose similarity is the maximum, provided the
  maximum exceeds 0.6; the "not found" sentinel otherwise; and the "empty" sentinel for
  a table without records.
\<close>

theorem C3_loop_agrees_with_two_passes:
  assumes sid: "fst (get_sheet_id env cached) = Some sid" "sid \<noteq> []"
    and tbl: "sheets_get env sid = Inr (table_of header recs)"
    and nonblank: "\<forall>r\<in>set recs. strip_py (snd r) \<noteq> []"
  shows "fst (find_email lo ra env cached query) =
           Inr (two_pass_find lo ra (map (\<lambda>r. (fst r, strip_py (snd r))) recs) query)"
proof -
  let ?t = "norm_name lo query"
  let ?rows = "map (\<lambda>r. [CStr (fst r), CStr (snd r)]) recs"
  define sc where "sc = (\<lambda>r :: string \<times> string. ra ?t (norm_name lo (fst r)))"
  have fe: "fst (find_email lo ra env cached query) =
        (if recs = [] then Inr rehber_bos
         else case scan_rows lo ra ?t ?rows None 0 of
                Inr r \<Rightarrow> Inr r | Inl e \<Rightarrow> Inr (''HATA: '' @ str_exn e))"
    using sid tbl
    by (cases "get_sheet_id env cached")
       (simp add: find_email_def find_email_try_def table_of_def norm_name_def)
  show ?thesis
  proof (cases "recs = []")
    case True
    with fe show ?thesis by (simp add: two_pass_find_def)
  next
    case ne: False
    show ?thesis
    proof (cases "List.find (\<lambda>r. contains_py ?t (norm_name lo (fst r))) recs")
      case (Some r)
      with scan_rows_contains [OF Some, of ra None 0] fe ne
      show ?thesis by (simp add: two_pass_find_trimmed)
    next
      case None
      note fz = scan_rows_fuzzy [where sc = sc and ra = ra and lo = lo and recs = recs and h = 0
          and b = None and t = "norm_name lo query", OF sc_def None]
      have img: "set (map (\<lambda>r. ra ?t (norm_name lo (fst r))) recs) = sc ` set recs"
        by (simp add: sc_def)
      have tp: "two_pass_find lo ra (map (\<lambda>r. (fst r, strip_py (snd r))) recs) query =
          (let m = Max (sc ` set recs)
           in if 6 / 10 < m
              then (case List.find (\<lambda>r. sc r = m) recs of
                      Some r \<Rightarrow> strip_py (snd r) | None \<Rightarrow> bulunamadi)
              else bulunamadi)"
        using ne None by (simp add: two_pass_find_trimmed sc_def Let_def)
      have fin: "finite (sc ` set recs)" "sc ` set recs \<noteq> {}" using ne by simp_all
      show ?thesis
      proof (cases "6 / 10 < Max (sc ` set recs)")
        case True
        from Max_in [OF fin] obtain r0 where "r0 \<in> set recs" "sc r0 = Max (sc ` set recs)"
          by auto
        with True have "\<exists>r\<in>set recs. 6 / 10 < sc r \<and> 0 < sc r" by force
        with fz obtain r where
          f: "List.find (\<lambda>r. sc r = Max (sc ` set recs)) recs = Some r"
          and s: "scan_rows lo ra ?t ?rows None 0 = Inr (after_loop (Some (strip_py (snd r))))"
          by blast
        from f have "r \<in> set recs" by (auto simp: find_Some_iff)
        with nonblank have "after_loop (Some (strip_py (snd r))) = strip_py (snd r)"
          by (auto simp: after_loop_def)
        with s have s': "scan_rows lo ra ?t ?rows None 0 = Inr (strip_py (snd r))" by simp
        have "two_pass_find lo ra (map (\<lambda>r. (fst r, strip_py (snd r))) recs) query
                = strip_py (snd r)"
          using True f by (simp add: tp Let_def)
        with fe ne s' show ?thesis by simp
      next
        case False
        have "\<not> (\<exists>r\<in>set recs. 6 / 10 < sc r \<and> 0 < sc r)"
        proof
          assume "\<exists>r\<in>set recs. 6 / 10 < sc r \<and> 0 < sc r"
          then obtain r where "r \<in> set recs" "6 / 10 < sc r" by blast
          moreover from this(1) have "sc r \<le> Max (sc ` set recs)" by simp
          ultimately show False using False by simp
        qed
        with fz have s: "scan_rows lo ra ?t ?rows None 0 = Inr (after_loop None)" by blast
        have "two_pass_find lo ra (map (\<lambda>r. (fst r, strip_py (snd r))) recs) query = bulunamadi"
          using False by (simp add: tp Let_def)
        with fe ne s show ?thesis by (simp add: after_loop_def)
      qed
    qed
  qed
qed

lemma kept:
  "strip_py ''engin'' = ''engin''"
  "strip_py ''ahmet kaya'' = ''ahmet kaya''"
  "strip_py ''zeynep demir'' = ''zeynep demir''"
  "strip_py ''engin vardar'' = ''engin vardar''"
  "strip_py ''ali velli'' = ''ali velli''"
  "strip_py ''ali veli'' = ''ali veli''"
  by (rule strip_py_keep; simp add: ws_heads ws_lasts)+

lemma kept_emails: "\<forall>r\<in>set ten_contacts. strip_py (snd r) = snd r"
proof -
  have "\<forall>r\<in>set ten_contacts. snd r \<noteq> [] \<and> hd (snd r) \<notin> hd ` set whitespace
          \<and> last (snd r) \<notin> last ` set whitespace"
    by (simp add: ten_contacts_def ws_heads ws_lasts)
  then show ?thesis by (auto intro: strip_py_keep)
qed

lemma two_pass_engin:
  "two_pass_find lower_ascii ratio_sample
     (map (\<lambda>r. (fst r, strip_py (snd r))) ten_contacts) ''Engin'' = ''engin@x.com''"
proof -
  have e: "strip_py ''engin@x.com'' = ''engin@x.com''"
    by (rule strip_py_keep) (simp_all add: ws_heads ws_lasts)
  show ?thesis
    unfolding two_pass_find_trimmed
    by (simp add: ten_contacts_def norm_name_def lower_ascii_def kept e contains_py_def)
qed

text \<open>An email cell padded with a no-break space and a blank is returned trimmed.\<close>

lemma strip_padded:
  "strip_py ([CHR 0xC2, CHR 0xA0] @ ''engin@x.com '') = ''engin@x.com''"
proof -
  have f: "drop_ws whitespace ([CHR 0xC2, CHR 0xA0] @ ''engin@x.com '') = ''engin@x.com ''"
    by (simp add: drop_ws.simps [of _ "CHR 0xC2 # _"] drop_ws.simps [of _ "CHR ''e'' # _"]
          whitespace_def)
  have r: "drop_ws (map rev whitespace) (rev ''engin@x.com '') = rev ''engin@x.com''"
    by (simp add: drop_ws.simps [of _ "CHR 0x20 # _"] drop_ws.simps [of _ "CHR ''m'' # _"]
          whitespace_def)
  show ?thesis unfolding strip_py_def f r by simp
qed

theorem C3_loop_agrees_witness:
  "fst (find_email lower_ascii ratio_sample (env_with_table (table_of header_row ten_contacts))
          None ''Engin'') = Inr ''engin@x.com''
   \<and> fst (find_email lower_ascii ratio_sample
          (env_with_table (table_of header_row
             [(''Engin Vardar'', [CHR 0xC2, CHR 0xA0] @ ''engin@x.com '')]))
          None ''Engin'') = Inr ''engin@x.com''"
proof -
  have sid: "\<And>t. fst (get_sheet_id (env_with_table t) None) = Some ''sheet-1''"
    "''sheet-1'' \<noteq> []"
    by (simp_all add: get_sheet_id_def env_with_table_def)
  have tbl: "\<And>t. sheets_get (env_with_table t) ''sheet-1'' = Inr t"
    by (simp add: env_with_table_def)
  have nonblank: "\<forall>r\<in>set ten_contacts. strip_py (snd r) \<noteq> []"
    using kept_emails by (simp add: ten_contacts_def)
  have nonblank': "\<forall>r\<in>set [(''Engin Vardar'', [CHR 0xC2, CHR 0xA0] @ ''engin@x.com '')].
                     strip_py (snd r) \<noteq> []"
    using strip_padded by simp
  have p: "two_pass_find lower_ascii ratio_sample
             (map (\<lambda>r. (fst r, strip_py (snd r)))
                [(''Engin Vardar'', [CHR 0xC2, CHR 0xA0] @ ''engin@x.com '')]) ''Engin''
           = ''engin@x.com''"
    using strip_padded
    by (simp add: two_pass_find_def norm_name_def lower_ascii_def kept contains_py_def)
  from C3_loop_agrees_with_two_passes [where lo = lower_ascii and ra = ratio_sample
      and query = "''Engin''" and cached = None, OF sid tbl nonblank]
  have a: "fst (find_email lower_ascii ratio_sample
                  (env_with_table (table_of header_row ten_contacts)) None ''Engin'')
           = Inr ''engin@x.com''"
    by (simp only: two_pass_engin)
  from C3_loop_agrees_with_two_passes [where lo = lower_ascii and ra = ratio_sample
      and query = "''Engin''" and cached = None, OF sid tbl nonblank']
  have b: "fst (find_email lower_ascii ratio_sample
          (env_with_table (table_of header_row
             [(''Engin Vardar'', [CHR 0xC2, CHR 0xA0] @ ''engin@x.com '')]))
          None ''Engin'') = Inr ''engin@x.com''"
    by (simp only: p)
  from a b show ?thesis by (rule conjI)
qed

text \<open>
  Claim C3 as stated fails on a record whose email cell is blank: the query "Ali Velli"
  is no substring of "ali veli", the similarity 16/17 exceeds 0.6, and the reference
  algorithm returns the email of that record (the cell as stored, or empty once
  trimmed), but the loop ends with an empty \<open>best_match\<close>, which
  \<open>best_match if best_match else "BULUNAMADI"\<close> takes for no match.
\<close>

lemma norm_ali:
  "norm_name lower_ascii ''Ali Velli'' = ''ali velli''"
  "norm_name lower_ascii ''Ali Veli'' = ''ali veli''"
  by (simp_all add: norm_name_def lower_ascii_def kept)

lemma ali_not_contained: "\<not> contains_py ''ali velli'' ''ali veli''"
  by (simp add: contains_py_def)

lemma ratio_ali: "ratio_sample ''ali velli'' ''ali veli'' = 16 / 17"
  by (simp add: ratio_sample_def)

lemma scan_blank:
  "scan_rows lower_ascii ratio_sample ''ali velli'' [[CStr ''Ali Veli'', CStr '' '']] None 0
     = Inr bulunamadi"
  using ali_not_contained
  by (simp only: scan_rows_record norm_ali ratio_ali strip_py_blank if_False) simp

theorem C3_blank_email_counterexample:
  "fst (find_email lower_ascii ratio_sample
          (env_with_table (table_of header_row [(''Ali Veli'', '' '')])) None ''Ali Velli'')
     = Inr bulunamadi
   \<and> two_pass_find lower_ascii ratio_sample [(''Ali Veli'', '' '')] ''Ali Velli'' = '' ''
   \<and> two_pass_find lower_ascii ratio_sample
        (map (\<lambda>r. (fst r, strip_py (snd r))) [(''Ali Veli'', '' '')]) ''Ali Velli'' = []
   \<and> bulunamadi \<noteq> [] \<and> bulunamadi \<noteq> '' ''
   \<and> 6 / 10 < ratio_sample (norm_name lower_ascii ''Ali Velli'') (norm_name lower_ascii ''Ali Veli'')"
proof -
  have a: "fst (find_email lower_ascii ratio_sample
          (env_with_table (table_of header_row [(''Ali Veli'', '' '')])) None ''Ali Velli'')
     = Inr bulunamadi"
    using scan_blank norm_ali(1)
    by (simp add: find_email_def find_email_try_def get_sheet_id_def env_with_table_def
          table_of_def header_row_def norm_name_def del: scan_rows.simps)
  have b: "two_pass_find lower_ascii ratio_sample [(''Ali Veli'', '' '')] ''Ali Velli'' = '' ''"
    using ali_not_contained by (simp add: two_pass_find_def norm_ali ratio_ali)
  have c: "two_pass_find lower_ascii ratio_sample
        (map (\<lambda>r. (fst r, strip_py (snd r))) [(''Ali Veli'', '' '')]) ''Ali Velli'' = []"
    using ali_not_contained
    by (simp add: two_pass_find_def norm_ali ratio_ali strip_py_blank)
  have d: "bulunamadi \<noteq> [] \<and> bulunamadi \<noteq> '' ''" by (simp add: bulunamadi_def)
  from a b c d show ?thesis by (simp add: norm_ali ratio_ali)
qed

section \<open>The temporal context is a function of one clock sample\<close>



section \<open>Scheduled meetings last one hour\<close>

lemma schedule_fst_total: "\<exists>r. fst (schedule env events summ iso_datetime) = Inr r"
  by (simp add: schedule_def split: prod.splits sum.splits)

lemma schedule_try_changed:
  assumes "snd (schedule_try env events summ iso_datetime) \<noteq> events"
  shows "\<exists>start_dt end_dt.
           fromisoformat env (filter (\<lambda>c. c \<noteq> CHR ''Z'') iso_datetime) = Inr start_dt
         \<and> add_hour start_dt = Inr end_dt
         \<and> schedule_try env events summ iso_datetime =
             (Inr (''Takvime Eklendi: '' @ time_str start_dt),
              events @ [\<lparr>summary = summ, start_dateTime = isoformat start_dt,
                          start_timeZone = ''Europe/Istanbul'',
                          end_dateTime = isoformat end_dt,
                          end_timeZone = ''Europe/Istanbul''\<rparr>])"
  using assms
  by (auto simp: schedule_try_def split: if_splits sum.splits option.splits)

text \<open>
  Claim C10, as the code has it. \<open>schedule\<close> returns a text for every input and never an
  exception; an empty \<open>iso_datetime\<close> gives the date-error text and leaves the calendar
  as it is. Whenever the calendar changes, exactly one event was appended: its start is
  the value \<open>fromisoformat\<close> gives on \<open>iso_datetime\<close> with every letter Z removed, its
  end is that value plus one hour, both written with \<open>isoformat\<close>, and for a valid start
  the end is 3600 seconds after it.
\<close>

theorem C10_meeting_lasts_one_hour:
  "(\<exists>r. fst (schedule env events summ iso_datetime) = Inr r)
   \<and> (iso_datetime = [] \<longrightarrow> schedule env events summ iso_datetime = (Inr tarih_hatasi, events))
   \<and> (snd (schedule env events summ iso_datetime) \<noteq> events \<longrightarrow>
        (\<exists>start_dt end_dt.
            fromisoformat env (filter (\<lambda>c. c \<noteq> CHR ''Z'') iso_datetime) = Inr start_dt
          \<and> add_hour start_dt = Inr end_dt
          \<and> schedule env events summ iso_datetime =
              (Inr (''Takvime Eklendi: '' @ time_str start_dt),
               events @ [\<lparr>summary = summ, start_dateTime = isoformat start_dt,
                           start_timeZone = ''Europe/Istanbul'',
                           end_dateTime = isoformat end_dt,
                           end_timeZone = ''Europe/Istanbul''\<rparr>])
          \<and> (valid_datetime start_dt \<longrightarrow> seconds_of end_dt = seconds_of start_dt + 3600)))"
proof (intro conjI impI)
  show "\<exists>r. fst (schedule env events summ iso_datetime) = Inr r" by (rule schedule_fst_total)
next
  assume "iso_datetime = []"
  then show "schedule env events summ iso_datetime = (Inr tarih_hatasi, events)"
    by (simp add: schedule_def schedule_try_def)
next
  assume "snd (schedule env events summ iso_datetime) \<noteq> events"
  then have "snd (schedule_try env events summ iso_datetime) \<noteq> events"
    by (auto simp: schedule_def split: prod.splits sum.splits)
  from schedule_try_changed [OF this] obtain start_dt end_dt where
    f: "fromisoformat env (filter (\<lambda>c. c \<noteq> CHR ''Z'') iso_datetime) = Inr start_dt"
    and a: "add_hour start_dt = Inr end_dt"
    and t: "schedule_try env events summ iso_datetime =
             (Inr (''Takvime Eklendi: '' @ time_str start_dt),
              events @ [\<lparr>summary = summ, start_dateTime = isoformat start_dt,
                          start_timeZone = ''Europe/Istanbul'',
                          end_dateTime = isoformat end_dt,
                          end_timeZone = ''Europe/Istanbul''\<rparr>])" by blast
  from t have s: "schedule env events summ iso_datetime =
             (Inr (''Takvime Eklendi: '' @ time_str start_dt),
              events @ [\<lparr>summary = summ, start_dateTime = isoformat start_dt,
                          start_timeZone = ''Europe/Istanbul'',
                          end_dateTime = isoformat end_dt,
                          end_timeZone = ''Europe/Istanbul''\<rparr>])"
    by (simp add: schedule_def)
  have "valid_datetime start_dt \<longrightarrow> seconds_of end_dt = seconds_of start_dt + 3600"
    using add_hour_seconds [OF _ a] by blast
  with f a s show "\<exists>start_dt end_dt.
            fromisoformat env (filter (\<lambda>c. c \<noteq> CHR ''Z'') iso_datetime) = Inr start_dt
          \<and> add_hour start_dt = Inr end_dt
          \<and> schedule env events summ iso_datetime =
              (Inr (''Takvime Eklendi: '' @ time_str start_dt),
               events @ [\<lparr>summary = summ, start_dateTime = isoformat start_dt,
                           start_timeZone = ''Europe/Istanbul'',
                           end_dateTime = isoformat end_dt,
                           end_timeZone = ''Europe/Istanbul''\<rparr>])
          \<and> (valid_datetime start_dt \<longrightarrow> seconds_of end_dt = seconds_of start_dt + 3600)"
    by blast
qed


lemma schedule_with_Z:
  "schedule calendar_sample [] ''Toplanti'' ''2026-01-05T10:00:00Z''
     = (Inr ''Takvime Eklendi: 10:00'', [meeting_event])"
  by (simp add: schedule_def schedule_try_def calendar_sample_def fromisoformat_sample_def
        add_hour_def isoformat_def date_str_def time_str_def pad2_def pad4_def digit_def
        meeting_event_def)

theorem C10_meeting_lasts_one_hour_witness:
  "schedule calendar_sample [] ''Toplanti'' ''2026-01-05T10:00:00Z''
     = (Inr ''Takvime Eklendi: 10:00'', [meeting_event])
   \<and> add_hour monday_ten = Inr (monday_ten\<lparr>hour := 11\<rparr>)
   \<and> seconds_of (monday_ten\<lparr>hour := 11\<rparr>) = seconds_of monday_ten + 3600"
proof -
  have fl: "filter (\<lambda>c. c \<noteq> CHR ''Z'') ''2026-01-05T10:00:00Z'' = ''2026-01-05T10:00:00''"
    by simp
  have fi: "fromisoformat calendar_sample ''2026-01-05T10:00:00'' = Inr monday_ten"
    by (simp add: calendar_sample_def fromisoformat_sample_def monday_ten_def)
  have ah: "add_hour monday_ten = Inr (monday_ten\<lparr>hour := 11\<rparr>)"
    by (simp add: add_hour_def monday_ten_def)
  have v: "valid_datetime monday_ten"
    by (simp add: valid_datetime_def monday_ten_def days_in_month_def)
  have ne: "snd (schedule calendar_sample [] ''Toplanti'' ''2026-01-05T10:00:00Z'') \<noteq> []"
    by (simp only: schedule_with_Z snd_conv) simp
  from C10_meeting_lasts_one_hour [of calendar_sample "[]" "''Toplanti''" "''2026-01-05T10:00:00Z''",
      THEN conjunct2, THEN conjunct2, rule_format, OF ne]
  obtain start_dt end_dt where
    f: "fromisoformat calendar_sample (filter (\<lambda>c. c \<noteq> CHR ''Z'') ''2026-01-05T10:00:00Z'')
          = Inr start_dt"
    and a: "add_hour start_dt = Inr end_dt"
    and d: "valid_datetime start_dt \<longrightarrow> seconds_of end_dt = seconds_of start_dt + 3600"
    by blast
  from f have "Inr start_dt = (Inr monday_ten :: exn + datetime)" by (simp only: fl fi)
  then have s: "start_dt = monday_ten" by (simp only: sum.inject)
  from a have "Inr end_dt = (Inr (monday_ten\<lparr>hour := 11\<rparr>) :: exn + datetime)"
    by (simp only: s ah)
  then have e: "end_dt = monday_ten\<lparr>hour := 11\<rparr>" by (simp only: sum.inject)
  from d v have "seconds_of (monday_ten\<lparr>hour := 11\<rparr>) = seconds_of monday_ten + 3600"
    by (simp only: s e)
  with schedule_with_Z ah show ?thesis by (simp only: simp_thms)
qed

text \<open>
  Claim C10 as stated fails on the place of the letter Z: \<open>replace("Z", "")\<close> removes
  every Z, not a trailing one. On "Z2026-01-05T10:00:00" a meeting is scheduled at ten,
  although the text with a trailing Z stripped (the text itself) is no ISO date.
\<close>

theorem C10_inner_Z_counterexample:
  "schedule calendar_sample [] ''Toplanti'' ''Z2026-01-05T10:00:00''
     = (Inr ''Takvime Eklendi: 10:00'', [meeting_event])
   \<and> isl (fromisoformat calendar_sample (strip_trailing_Z ''Z2026-01-05T10:00:00''))"
  by (simp add: schedule_def schedule_try_def calendar_sample_def fromisoformat_sample_def
        add_hour_def isoformat_def date_str_def time_str_def pad2_def pad4_def digit_def
        meeting_event_def strip_trailing_Z_def)

end
